theory Spec2Isabelle
  imports Main
begin

section \<open>Data model of \<^verbatim>\<open>backend/ai_generator.py\<close>\<close>

text \<open>
  The engine (\<^verbatim>\<open>class AIGenerator\<close>) talks to two collaborators: the LM client
  (\<^verbatim>\<open>self.client.messages.create\<close>) and the tool manager
  (\<^verbatim>\<open>tool_manager.execute_tool\<close>). Responses, requests and messages are Python objects
  and dictionaries; here they are records and datatypes with the fields the engine reads
  or writes.
\<close>

text \<open>Exceptions (all subclasses of Python's \<^verbatim>\<open>Exception\<close>), carrying their message.\<close>

datatype exn = Exception string | AttributeError string | IndexError string

fun str_exn :: "exn \<Rightarrow> string" where
  "str_exn (Exception m) = m"
| "str_exn (AttributeError m) = m"
| "str_exn (IndexError m) = m"

text \<open>
  A content block of a response: a text block has the attribute \<^verbatim>\<open>text\<close>; a tool-use
  block has \<^verbatim>\<open>type == "tool_use"\<close>, \<^verbatim>\<open>id\<close>, \<^verbatim>\<open>name\<close> and \<^verbatim>\<open>input\<close> (a
  dictionary of keyword arguments, kept as an association list) and no \<^verbatim>\<open>text\<close>.
\<close>

datatype content_block =
    Text (block_text: string)
  | ToolUse (block_id: string) (block_name: string) (block_input: "(string \<times> string) list")

record response =
  stop_reason :: string
  content :: "content_block list"

text \<open>
  Messages of the conversation. The first message carries the query string, an assistant
  message carries the content blocks of a response, and the user message of a round
  carries the list of tool-result dictionaries.
\<close>

datatype role = User | Assistant

record tool_result =
  result_type :: string
  tool_use_id :: string
  result_content :: string

datatype message_body =
    QueryText string
  | Blocks "content_block list"
  | ToolResults "tool_result list"

record message =
  role :: role
  body :: message_body

record tool_schema =
  schema_name :: string
  description :: string
  input_schema :: string

text \<open>
  The keyword arguments of \<^verbatim>\<open>messages.create\<close>. For \<open>tools\<close> and \<open>tool_choice\<close> the
  outer \<open>None\<close> is an absent key; \<open>Some ChoiceNone\<close> is the key present with the value
  \<^verbatim>\<open>None\<close>, and \<open>Some ChoiceAuto\<close> is \<^verbatim>\<open>{"type": "auto"}\<close>.
\<close>

datatype tool_choice = ChoiceAuto | ChoiceNone

record request =
  req_model :: string
  temperature :: nat
  max_tokens :: nat
  messages :: "message list"
  system :: string
  tools :: "tool_schema list option"
  tool_choice :: "tool_choice option"

text \<open>
  Every call that leaves the engine is recorded, in order, with what came back: the value
  returned (\<open>Inr\<close>) or the exception raised (\<open>Inl\<close>). A request is recorded as it is
  when the call is made. The collaborators are arbitrary: what they answer may depend on
  everything that happened before (the trace) and on the arguments of the call.
\<close>

datatype event =
    LMCall request "exn + response"
  | ToolCall string "(string \<times> string) list" "exn + string"

type_synonym lm_client = "event list \<Rightarrow> request \<Rightarrow> exn + response"

type_synonym tool_manager = "event list \<Rightarrow> string \<Rightarrow> (string \<times> string) list \<Rightarrow> exn + string"

record ai_generator =
  client :: lm_client
  model :: string

text \<open>
  What a run leaves behind: the value returned or the exception that reached the caller,
  the statement at which the run ended, the value of \<^verbatim>\<open>round_count\<close> there, and the trace.
  The exits are, in source order: the first \<^verbatim>\<open>messages.create\<close> raising (line 98), the
  direct return of \<^verbatim>\<open>response.content[0].text\<close> (line 105), reading
  \<^verbatim>\<open>current_response.stop_reason\<close> of \<^verbatim>\<open>None\<close> (line 129), the return for a response
  that asks for no tool (line 131), the return after a failed batch (line 146), the two
  alternatives of the return in the exception handler (lines 171 and 173), and the return
  after the loop (line 178).
\<close>

datatype exit_site =
    FirstCallRaised
  | DirectReturn
  | StopReasonRaised
  | NoToolUseReturn
  | ToolFailureReturn
  | LMFailureTextReturn
  | LMFailureMessageReturn
  | MaxRoundsReturn

record outcome =
  result :: "exn + string"
  exit_site :: exit_site
  rounds :: nat
  trace :: "event list"

section \<open>Python primitives\<close>

text \<open>\<^verbatim>\<open>hasattr(block, "text")\<close>, \<^verbatim>\<open>block.text\<close>, \<^verbatim>\<open>block.type == "tool_use"\<close> and \<^verbatim>\<open>xs[0]\<close>.\<close>

fun hasattr_text :: "content_block \<Rightarrow> bool" where
  "hasattr_text (Text t) = True"
| "hasattr_text (ToolUse i n a) = False"

fun get_text :: "content_block \<Rightarrow> exn + string" where
  "get_text (Text t) = Inr t"
| "get_text (ToolUse i n a) = Inl (AttributeError ''object has no attribute text'')"

fun is_tool_use :: "content_block \<Rightarrow> bool" where
  "is_tool_use (Text t) = False"
| "is_tool_use (ToolUse i n a) = True"

fun getitem0 :: "'a list \<Rightarrow> exn + 'a" where
  "getitem0 [] = Inl (IndexError ''list index out of range'')"
| "getitem0 (x # xs) = Inr x"

text \<open>Truth value of an optional list or string: \<^verbatim>\<open>None\<close> and the empty one are falsy.\<close>

fun truthy :: "'a list option \<Rightarrow> bool" where
  "truthy None = False"
| "truthy (Some xs) = (xs \<noteq> [])"

text \<open>\<^verbatim>\<open>str(n)\<close> for a natural number, as the f-string of the error message prints it.\<close>

definition digit_char :: "nat \<Rightarrow> char" where
  "digit_char d = char_of (48 + d)"

function str_nat :: "nat \<Rightarrow> string" where
  "str_nat n = (if n < 10 then [digit_char n] else str_nat (n div 10) @ [digit_char (n mod 10)])"
  by pat_completeness auto
termination
  by (relation "measure (\<lambda>n. n)") auto

section \<open>Constants of \<^verbatim>\<open>AIGenerator\<close>\<close>

definition MAX_TOOL_ROUNDS :: nat where
  "MAX_TOOL_ROUNDS = 2"

definition SYSTEM_PROMPT :: string where
  \<open>SYSTEM_PROMPT =
     '' You are an AI assistant specialized in course materials and educational content with access to comprehensive search and outline tools for course information.\<newline>'' @
     ''\<newline>'' @
     ''Tool Usage Guidelines - Sequential Tool Calling Enabled:\<newline>'' @
     ''- **Course outline/structure questions**: ALWAYS use the get_course_outline tool to get complete course information including title, course link, and all lessons with numbers and titles\<newline>'' @
     ''- **Course content questions**: ALWAYS use the search_course_content tool first for ANY topic that might be covered in course materials (ML, AI, programming, data science, etc.)\<newline>'' @
     ''- **Sequential usage**: You can make up to 2 rounds of tool calls per user query for complex queries\<newline>'' @
     ''- **Round 1**: Make your initial search or outline request to gather foundational information\<newline>'' @
     ''- **Round 2**: If beneficial, make a follow-up tool call to search for additional details, comparisons, or specific aspects\<newline>'' @
     ''- Synthesize tool results into accurate, fact-based responses\<newline>'' @
     ''- If tools yield no results, state this clearly without offering alternatives\<newline>'' @
     ''\<newline>'' @
     ''Response Protocol:\<newline>'' @
     ''- **When in doubt, search first**: If a query could possibly relate to course content, use search_course_content tool\<newline>'' @
     ''- **Sequential strategy**: After getting initial results, consider if a follow-up search would add significant value\<newline>'' @
     ''- **Course outline questions** (e.g., "What is the outline of...", "What lessons are in...", "Course structure..."): Use get_course_outline tool, then search specific lessons if needed\<newline>'' @
     ''- **Comparison queries**: Search each topic/course separately for comprehensive comparisons\<newline>'' @
     ''- **Only use general knowledge** for clearly unrelated topics (geography, history, basic facts not covered in courses)\<newline>'' @
     ''- **No meta-commentary**:\<newline>'' @
     '' - Provide direct answers only '' @
     [CHR 0xC3, CHR 0xA2, CHR 0xE2, CHR 0x82, CHR 0xAC, CHR 0xE2, CHR 0x80, CHR 0x9D] @
     '' no reasoning process, tool explanations, or question-type analysis\<newline>'' @
     '' - Do not mention "based on the search results" or "using the outline tool"\<newline>'' @
     ''\<newline>'' @
     ''For Outline Queries:\<newline>'' @
     ''- Always include the complete course title, course link (if available), and the full lesson list\<newline>'' @
     ''- Format each lesson as: lesson number, lesson title, and lesson link (if available)\<newline>'' @
     ''- Present information in a clear, structured format\<newline>'' @
     ''\<newline>'' @
     ''All responses must be:\<newline>'' @
     ''1. **Brief, Concise and focused** - Get to the point quickly\<newline>'' @
     ''2. **Educational** - Maintain instructional value\<newline>'' @
     ''3. **Clear** - Use accessible language\<newline>'' @
     ''4. **Example-supported** - Include relevant examples when they aid understanding\<newline>'' @
     ''Provide only the direct answer to what was asked.\<newline>''\<close>

definition PREVIOUS_CONVERSATION :: string where
  \<open>PREVIOUS_CONVERSATION = ''\<newline>\<newline>Previous conversation:\<newline>''\<close>

definition NO_RESPONSE_TEXT :: string where
  \<open>NO_RESPONSE_TEXT = ''I apologize, but I couldn't generate a response.''\<close>

definition NO_TEXT_BLOCK_TEXT :: string where
  \<open>NO_TEXT_BLOCK_TEXT = ''I processed your request but couldn't generate a text response.''\<close>

definition TOOL_FAILURE_TEXT :: string where
  \<open>TOOL_FAILURE_TEXT =
     ''I encountered an error while searching for information. Let me provide what I can from my knowledge.''\<close>

section \<open>\<^verbatim>\<open>_extract_text_content\<close>\<close>

text \<open>
  The loop \<^verbatim>\<open>for content_block in response.content: if hasattr(content_block, "text"):
  return content_block.text\<close>. \<open>None\<close> means the loop ran to its end without returning.
\<close>

fun scan_text_blocks :: "content_block list \<Rightarrow> (exn + string) option" where
  "scan_text_blocks [] = None"
| "scan_text_blocks (b # bs) = (if hasattr_text b then Some (get_text b) else scan_text_blocks bs)"

text \<open>
  The argument is \<open>None\<close> for Python's \<^verbatim>\<open>None\<close>; a response object is truthy, an empty
  content list is falsy.
\<close>

definition extract_text_content :: "response option \<Rightarrow> exn + string" where
  "extract_text_content resp =
     (case resp of
        None \<Rightarrow> Inr NO_RESPONSE_TEXT
      | Some r \<Rightarrow>
          if content r = [] then Inr NO_RESPONSE_TEXT
          else (case getitem0 (content r) of
                  Inl e \<Rightarrow> Inl e
                | Inr b0 \<Rightarrow>
                    if hasattr_text b0 then get_text b0
                    else (case scan_text_blocks (content r) of
                            Some v \<Rightarrow> v
                          | None \<Rightarrow> Inr NO_TEXT_BLOCK_TEXT)))"

section \<open>\<^verbatim>\<open>_execute_all_tools\<close>\<close>

text \<open>
  The \<^verbatim>\<open>for\<close> loop over \<^verbatim>\<open>response.content\<close> inside \<^verbatim>\<open>try\<close>, with the list
  \<^verbatim>\<open>tool_results\<close> as accumulator. A block that is not a tool-use block is skipped. An
  exception of \<^verbatim>\<open>execute_tool\<close> leaves the loop through \<^verbatim>\<open>except Exception\<close>, which
  returns \<^verbatim>\<open>([], False)\<close>; the blocks after it are not visited.
\<close>

fun run_tool_blocks ::
  "tool_manager \<Rightarrow> content_block list \<Rightarrow> tool_result list \<Rightarrow> event list
     \<Rightarrow> (tool_result list \<times> bool) \<times> event list" where
  "run_tool_blocks tm [] tool_results tr = ((tool_results, True), tr)"
| "run_tool_blocks tm (Text t # bs) tool_results tr = run_tool_blocks tm bs tool_results tr"
| "run_tool_blocks tm (ToolUse i n a # bs) tool_results tr =
     (case tm tr n a of
        Inr res \<Rightarrow>
          run_tool_blocks tm bs
            (tool_results @ [\<lparr>result_type = ''tool_result'', tool_use_id = i, result_content = res\<rparr>])
            (tr @ [ToolCall n a (Inr res)])
      | Inl e \<Rightarrow> (([], False), tr @ [ToolCall n a (Inl e)]))"

definition execute_all_tools ::
  "response \<Rightarrow> tool_manager \<Rightarrow> nat \<Rightarrow> event list \<Rightarrow> (tool_result list \<times> bool) \<times> event list" where
  "execute_all_tools resp tm round_count tr = run_tool_blocks tm (content resp) [] tr"

section \<open>\<^verbatim>\<open>_handle_tool_execution\<close>\<close>

text \<open>
  The dictionary \<^verbatim>\<open>next_params\<close>: \<^verbatim>\<open>base_params.get("tools", [])\<close> is the tools list or
  the empty list, and \<^verbatim>\<open>tool_choice\<close> is \<^verbatim>\<open>{"type": "auto"}\<close> when
  \<^verbatim>\<open>base_params.get("tools")\<close> is truthy, else \<^verbatim>\<open>None\<close>.
\<close>

definition next_params :: "ai_generator \<Rightarrow> request \<Rightarrow> message list \<Rightarrow> request" where
  "next_params self base_params msgs =
     \<lparr>req_model = model self, temperature = 0, max_tokens = 1200,
      messages = msgs,
      system = system base_params,
      tools = Some (case tools base_params of Some ts \<Rightarrow> ts | None \<Rightarrow> []),
      tool_choice = Some (if truthy (tools base_params) then ChoiceAuto else ChoiceNone)\<rparr>"

definition error_msg :: "nat \<Rightarrow> exn \<Rightarrow> string" where
  "error_msg round_count e =
     ''Error in tool execution round '' @ str_nat round_count @ '': '' @ str_exn e"

text \<open>
  One pass through the body of the \<^verbatim>\<open>while\<close> loop, \<open>round_count\<close> already incremented.
  It either leaves the function (\<open>Return\<close>) or goes round again with the new message list,
  the new response and the longer trace (\<open>Continue\<close>).
\<close>

datatype step =
    Return outcome
  | Continue "message list" "response option" "event list"

definition tool_round ::
  "ai_generator \<Rightarrow> request \<Rightarrow> tool_manager \<Rightarrow> nat \<Rightarrow> message list \<Rightarrow> response option
     \<Rightarrow> event list \<Rightarrow> step" where
  "tool_round self base_params tm round_count msgs current_response tr =
     (case current_response of
        None \<Rightarrow>
          Return \<lparr>result = Inl (AttributeError ''NoneType object has no attribute stop_reason''),
                  exit_site = StopReasonRaised, rounds = round_count, trace = tr\<rparr>
      | Some cur \<Rightarrow>
          if stop_reason cur \<noteq> ''tool_use''
          then Return \<lparr>result = extract_text_content current_response,
                       exit_site = NoToolUseReturn, rounds = round_count, trace = tr\<rparr>
          else
            let msgs1 = msgs @ [\<lparr>role = Assistant, body = Blocks (content cur)\<rparr>];
                ((tool_results, execution_success), tr1) = execute_all_tools cur tm round_count tr
            in if \<not> execution_success
               then Return \<lparr>result = Inr TOOL_FAILURE_TEXT,
                            exit_site = ToolFailureReturn, rounds = round_count, trace = tr1\<rparr>
               else
                 let msgs2 = (if tool_results \<noteq> []
                              then msgs1 @ [\<lparr>role = User, body = ToolResults tool_results\<rparr>]
                              else msgs1);
                     req = next_params self base_params msgs2
                 in (case client self tr1 req of
                       Inr next_response \<Rightarrow>
                         Continue msgs2 (Some next_response) (tr1 @ [LMCall req (Inr next_response)])
                     | Inl e \<Rightarrow>
                         Return (if current_response \<noteq> None
                                 then \<lparr>result = extract_text_content current_response,
                                       exit_site = LMFailureTextReturn, rounds = round_count,
                                       trace = tr1 @ [LMCall req (Inl e)]\<rparr>
                                 else \<lparr>result = Inr (error_msg round_count e),
                                       exit_site = LMFailureMessageReturn, rounds = round_count,
                                       trace = tr1 @ [LMCall req (Inl e)]\<rparr>)))"

text \<open>The loop \<^verbatim>\<open>while round_count < self.MAX_TOOL_ROUNDS\<close> and the return after it.\<close>

function tool_loop ::
  "ai_generator \<Rightarrow> request \<Rightarrow> tool_manager \<Rightarrow> nat \<Rightarrow> message list \<Rightarrow> response option
     \<Rightarrow> event list \<Rightarrow> outcome" where
  "tool_loop self base_params tm round_count msgs current_response tr =
     (if round_count < MAX_TOOL_ROUNDS
      then (case tool_round self base_params tm (round_count + 1) msgs current_response tr of
              Return out \<Rightarrow> out
            | Continue msgs' response' tr' \<Rightarrow>
                tool_loop self base_params tm (round_count + 1) msgs' response' tr')
      else \<lparr>result = extract_text_content current_response,
            exit_site = MaxRoundsReturn, rounds = round_count, trace = tr\<rparr>)"
  by pat_completeness auto
termination
  by (relation "measure (\<lambda>(self, base_params, tm, round_count, rest). MAX_TOOL_ROUNDS - round_count)")
     auto

definition handle_tool_execution ::
  "ai_generator \<Rightarrow> response option \<Rightarrow> request \<Rightarrow> tool_manager \<Rightarrow> event list \<Rightarrow> outcome" where
  "handle_tool_execution self initial_response base_params tm tr =
     tool_loop self base_params tm 0 (messages base_params) initial_response tr"

section \<open>\<^verbatim>\<open>generate_response\<close>\<close>

definition system_content :: "string option \<Rightarrow> string" where
  "system_content conversation_history =
     (case conversation_history of
        None \<Rightarrow> SYSTEM_PROMPT
      | Some h \<Rightarrow> if h \<noteq> [] then SYSTEM_PROMPT @ PREVIOUS_CONVERSATION @ h else SYSTEM_PROMPT)"

definition api_params ::
  "ai_generator \<Rightarrow> string \<Rightarrow> string option \<Rightarrow> tool_schema list option \<Rightarrow> request" where
  "api_params self query conversation_history tools_arg =
     (let params = \<lparr>req_model = model self, temperature = 0, max_tokens = 1200,
                     messages = [\<lparr>role = User, body = QueryText query\<rparr>],
                     system = system_content conversation_history,
                     tools = None, tool_choice = None\<rparr>
      in if truthy tools_arg
         then params\<lparr>tools := tools_arg, tool_choice := Some ChoiceAuto\<rparr>
         else params)"

definition generate_response ::
  "ai_generator \<Rightarrow> string \<Rightarrow> string option \<Rightarrow> tool_schema list option \<Rightarrow> tool_manager option
     \<Rightarrow> outcome" where
  "generate_response self query conversation_history tools_arg tool_manager =
     (let params = api_params self query conversation_history tools_arg
      in case client self [] params of
           Inl e \<Rightarrow>
             \<lparr>result = Inl e, exit_site = FirstCallRaised, rounds = 0,
              trace = [LMCall params (Inl e)]\<rparr>
         | Inr resp \<Rightarrow>
             let tr = [LMCall params (Inr resp)];
                 direct = \<lparr>result = (case getitem0 (content resp) of
                                         Inl e \<Rightarrow> Inl e
                                       | Inr b0 \<Rightarrow> get_text b0),
                           exit_site = DirectReturn, rounds = 0, trace = tr\<rparr>
             in if stop_reason resp = ''tool_use''
                then (case tool_manager of
                        Some tm \<Rightarrow> handle_tool_execution self (Some resp) params tm tr
                      | None \<Rightarrow> direct)
                else direct)"

section \<open>Reading a trace\<close>

fun lm_calls :: "event list \<Rightarrow> (request \<times> (exn + response)) list" where
  "lm_calls [] = []"
| "lm_calls (LMCall req res # evs) = (req, res) # lm_calls evs"
| "lm_calls (ToolCall n a res # evs) = lm_calls evs"

fun tool_calls :: "event list \<Rightarrow> (string \<times> (string \<times> string) list \<times> (exn + string)) list" where
  "tool_calls [] = []"
| "tool_calls (LMCall req res # evs) = tool_calls evs"
| "tool_calls (ToolCall n a res # evs) = (n, a, res) # tool_calls evs"

text \<open>A tool call that raised, an LM call that raised.\<close>

fun tool_failed :: "event \<Rightarrow> bool" where
  "tool_failed (ToolCall n a (Inl e)) = True"
| "tool_failed (ToolCall n a (Inr s)) = False"
| "tool_failed (LMCall req res) = False"

fun lm_failed :: "event \<Rightarrow> bool" where
  "lm_failed (LMCall req (Inl e)) = True"
| "lm_failed (LMCall req (Inr r)) = False"
| "lm_failed (ToolCall n a res) = False"

text \<open>
  The response most recently obtained from the LM: \<open>cur\<close> before the events, replaced by
  each response that an LM call of the events returns.
\<close>

fun last_response :: "response option \<Rightarrow> event list \<Rightarrow> response option" where
  "last_response cur [] = cur"
| "last_response cur (LMCall req (Inr r) # evs) = last_response (Some r) evs"
| "last_response cur (LMCall req (Inl e) # evs) = last_response cur evs"
| "last_response cur (ToolCall n a res # evs) = last_response cur evs"

text \<open>
  The messages a round adds to the conversation: the assistant's content, then one user
  message with the tool results when there are any.
\<close>

definition round_messages :: "response \<Rightarrow> tool_result list \<Rightarrow> message list" where
  "round_messages cur trs =
     \<lparr>role = Assistant, body = Blocks (content cur)\<rparr>
       # (if trs \<noteq> [] then [\<lparr>role = User, body = ToolResults trs\<rparr>] else [])"

text \<open>
  Two consecutive LM calls of a run: the first returned a response, and the messages of
  the second request are those of the first followed by the messages of the round, whose
  tool results carry the ids of the response's tool-use blocks, in order.
\<close>

definition results_handed_over ::
  "request \<times> (exn + response) \<Rightarrow> request \<times> (exn + response) \<Rightarrow> bool" where
  "results_handed_over c c' =
     (\<exists>r trs. snd c = Inr r
        \<and> messages (fst c') = messages (fst c) @ round_messages r trs
        \<and> map tool_use_id trs = map block_id (filter is_tool_use (content r)))"

section \<open>Scenarios\<close>

text \<open>Concrete collaborators and responses, in the style of the mocks of the test suite.\<close>

definition search_block :: content_block where
  "search_block = ToolUse ''tool-1'' ''search_course_content'' [(''query'', ''X'')]"

definition outline_block :: content_block where
  "outline_block = ToolUse ''tool-2'' ''get_course_outline'' [(''course_name'', ''MCP'')]"

definition text_response :: response where
  "text_response =
     \<lparr>stop_reason = ''end_turn'', content = [Text ''Paris is the capital of France.'']\<rparr>"

definition tool_use_response :: response where
  "tool_use_response = \<lparr>stop_reason = ''tool_use'', content = [search_block]\<rparr>"

definition mixed_response :: response where
  "mixed_response =
     \<lparr>stop_reason = ''tool_use'',
      content = [Text ''Let me look that up.'', search_block, outline_block]\<rparr>"

definition late_text_response :: response where
  "late_text_response =
     \<lparr>stop_reason = ''end_turn'',
      content = [search_block, Text ''Paris is the capital of France.'']\<rparr>"

definition empty_response :: response where
  "empty_response = \<lparr>stop_reason = ''end_turn'', content = []\<rparr>"

definition search_schema :: tool_schema where
  "search_schema =
     \<lparr>schema_name = ''search_course_content'', description = ''Search course materials'',
      input_schema = ''object''\<rparr>"

text \<open>
  A client that answers from a script, one entry per call, as a mock with a list of side
  effects does; and a client that gives the same response to every call.
\<close>

definition scripted_client :: "(exn + response) list \<Rightarrow> lm_client" where
  "scripted_client script tr req =
     (case drop (length (lm_calls tr)) script of
        [] \<Rightarrow> Inl (Exception ''StopIteration'')
      | x # xs \<Rightarrow> x)"

definition scripted_generator :: "(exn + response) list \<Rightarrow> ai_generator" where
  "scripted_generator script =
     \<lparr>client = scripted_client script, model = ''claude-sonnet-4-20250514''\<rparr>"

definition constant_client :: "response \<Rightarrow> lm_client" where
  "constant_client r tr req = Inr r"

definition constant_generator :: "response \<Rightarrow> ai_generator" where
  "constant_generator r = \<lparr>client = constant_client r, model = ''claude-sonnet-4-20250514''\<rparr>"

definition working_tools :: tool_manager where
  "working_tools tr n a = Inr (''result of '' @ n)"

definition broken_tools :: tool_manager where
  "broken_tools tr n a = Inl (Exception ''boom'')"

section \<open>Auxiliary facts\<close>

declare tool_loop.simps [simp del]
declare str_nat.simps [simp del]

lemma lm_calls_append: "lm_calls (xs @ ys) = lm_calls xs @ lm_calls ys"
  by (induction xs rule: lm_calls.induct) simp_all

lemma tool_calls_append: "tool_calls (xs @ ys) = tool_calls xs @ tool_calls ys"
  by (induction xs rule: tool_calls.induct) simp_all

lemma last_response_append:
  "last_response cur (xs @ ys) = last_response (last_response cur xs) ys"
  by (induction cur xs rule: last_response.induct) simp_all

lemma last_response_no_lm: "lm_calls evs = [] \<Longrightarrow> last_response cur evs = cur"
  by (induction cur evs rule: last_response.induct) simp_all

subsection \<open>What a batch of tool calls adds to the trace\<close>

lemma run_tool_blocks_trace:
  "run_tool_blocks tm bs acc tr = ((trs, ok), tr') \<Longrightarrow>
   \<exists>new. tr' = tr @ new \<and> lm_calls new = []
     \<and> (ok \<longrightarrow> (\<forall>ev \<in> set new. \<not> tool_failed ev)
              \<and> map tool_use_id trs = map tool_use_id acc @ map block_id (filter is_tool_use bs))
     \<and> (\<not> ok \<longrightarrow> trs = [] \<and> new \<noteq> [] \<and> tool_failed (last new)
              \<and> (\<forall>ev \<in> set (butlast new). \<not> tool_failed ev))"
proof (induction tm bs acc tr arbitrary: trs ok tr' rule: run_tool_blocks.induct)
  case (1 tm tool_results tr)
  then show ?case by auto
next
  case (2 tm t bs tool_results tr)
  then show ?case by simp
next
  case (3 tm i n a bs tool_results tr)
  show ?case
  proof (cases "tm tr n a")
    case (Inl e)
    with 3(2) show ?thesis by auto
  next
    case (Inr res)
    let ?acc = "tool_results @ [\<lparr>result_type = ''tool_result'', tool_use_id = i, result_content = res\<rparr>]"
    let ?tr = "tr @ [ToolCall n a (Inr res)]"
    from 3(2) Inr have "run_tool_blocks tm bs ?acc ?tr = ((trs, ok), tr')" by simp
    from 3(1) [OF Inr this] obtain new where
      new: "tr' = ?tr @ new" "lm_calls new = []"
        "ok \<longrightarrow> (\<forall>ev \<in> set new. \<not> tool_failed ev)
              \<and> map tool_use_id trs = map tool_use_id ?acc @ map block_id (filter is_tool_use bs)"
        "\<not> ok \<longrightarrow> trs = [] \<and> new \<noteq> [] \<and> tool_failed (last new)
              \<and> (\<forall>ev \<in> set (butlast new). \<not> tool_failed ev)"
      by blast
    show ?thesis
    proof (intro exI [of _ "ToolCall n a (Inr res) # new"] conjI impI)
      show "tr' = tr @ ToolCall n a (Inr res) # new" using new(1) by simp
      show "lm_calls (ToolCall n a (Inr res) # new) = []" using new(2) by simp
    next
      assume ok
      with new(3) show "\<forall>ev \<in> set (ToolCall n a (Inr res) # new). \<not> tool_failed ev" by simp
      from \<open>ok\<close> new(3) show "map tool_use_id trs
            = map tool_use_id tool_results @ map block_id (filter is_tool_use (ToolUse i n a # bs))"
        by simp
    next
      assume "\<not> ok"
      with new(4) show "trs = []" "ToolCall n a (Inr res) # new \<noteq> []"
        "tool_failed (last (ToolCall n a (Inr res) # new))"
        "\<forall>ev \<in> set (butlast (ToolCall n a (Inr res) # new)). \<not> tool_failed ev"
        by simp_all
    qed
  qed
qed

lemma execute_all_tools_trace:
  "execute_all_tools cur tm rc tr = ((trs, ok), tr') \<Longrightarrow>
   \<exists>new. tr' = tr @ new \<and> lm_calls new = []
     \<and> (ok \<longrightarrow> (\<forall>ev \<in> set new. \<not> tool_failed ev)
              \<and> map tool_use_id trs = map block_id (filter is_tool_use (content cur)))
     \<and> (\<not> ok \<longrightarrow> trs = [] \<and> new \<noteq> [] \<and> tool_failed (last new)
              \<and> (\<forall>ev \<in> set (butlast new). \<not> tool_failed ev))"
  using run_tool_blocks_trace [of tm "content cur" "[]" tr trs ok tr']
  by (simp add: execute_all_tools_def)

subsection \<open>The five ways through the body of the loop\<close>

lemma tool_round_cases:
  obtains
    (no_response) "current_response = None"
      "tool_round self bp tm rc msgs current_response tr =
         Return \<lparr>result = Inl (AttributeError ''NoneType object has no attribute stop_reason''),
                 exit_site = StopReasonRaised, rounds = rc, trace = tr\<rparr>"
  | (no_tool_use) cur where "current_response = Some cur" "stop_reason cur \<noteq> ''tool_use''"
      "tool_round self bp tm rc msgs current_response tr =
         Return \<lparr>result = extract_text_content (Some cur),
                 exit_site = NoToolUseReturn, rounds = rc, trace = tr\<rparr>"
  | (tool_failure) cur trs tr1 where "current_response = Some cur" "stop_reason cur = ''tool_use''"
      "execute_all_tools cur tm rc tr = ((trs, False), tr1)"
      "tool_round self bp tm rc msgs current_response tr =
         Return \<lparr>result = Inr TOOL_FAILURE_TEXT,
                 exit_site = ToolFailureReturn, rounds = rc, trace = tr1\<rparr>"
  | (lm_failure) cur trs tr1 e where "current_response = Some cur" "stop_reason cur = ''tool_use''"
      "execute_all_tools cur tm rc tr = ((trs, True), tr1)"
      "client self tr1 (next_params self bp (msgs @ round_messages cur trs)) = Inl e"
      "tool_round self bp tm rc msgs current_response tr =
         Return \<lparr>result = extract_text_content (Some cur),
                 exit_site = LMFailureTextReturn, rounds = rc,
                 trace = tr1 @ [LMCall (next_params self bp (msgs @ round_messages cur trs)) (Inl e)]\<rparr>"
  | (next_round) cur trs tr1 r where "current_response = Some cur" "stop_reason cur = ''tool_use''"
      "execute_all_tools cur tm rc tr = ((trs, True), tr1)"
      "client self tr1 (next_params self bp (msgs @ round_messages cur trs)) = Inr r"
      "tool_round self bp tm rc msgs current_response tr =
         Continue (msgs @ round_messages cur trs) (Some r)
           (tr1 @ [LMCall (next_params self bp (msgs @ round_messages cur trs)) (Inr r)])"
proof (cases current_response)
  case None
  then show ?thesis using no_response by (simp add: tool_round_def)
next
  case (Some cur)
  show ?thesis
  proof (cases "stop_reason cur = ''tool_use''")
    case False
    with Some show ?thesis using no_tool_use by (simp add: tool_round_def)
  next
    case True
    obtain trs ok tr1 where ex: "execute_all_tools cur tm rc tr = ((trs, ok), tr1)"
      by (metis surj_pair)
    show ?thesis
    proof (cases ok)
      case False
      with Some True ex show ?thesis using tool_failure by (simp add: tool_round_def)
    next
      case ok: True
      with ex have ex': "execute_all_tools cur tm rc tr = ((trs, True), tr1)" by simp
      show ?thesis
      proof (cases "client self tr1 (next_params self bp (msgs @ round_messages cur trs))")
        case (Inl e)
        with Some True ex'
        have eq: "tool_round self bp tm rc msgs current_response tr =
           Return \<lparr>result = extract_text_content (Some cur),
                   exit_site = LMFailureTextReturn, rounds = rc,
                   trace = tr1 @ [LMCall (next_params self bp (msgs @ round_messages cur trs)) (Inl e)]\<rparr>"
          by (cases "trs = []") (simp_all add: tool_round_def Let_def round_messages_def)
        show ?thesis by (rule lm_failure [OF Some True ex' Inl eq])
      next
        case (Inr r)
        with Some True ex'
        have eq: "tool_round self bp tm rc msgs current_response tr =
           Continue (msgs @ round_messages cur trs) (Some r)
             (tr1 @ [LMCall (next_params self bp (msgs @ round_messages cur trs)) (Inr r)])"
          by (cases "trs = []") (simp_all add: tool_round_def Let_def round_messages_def)
        show ?thesis by (rule next_round [OF Some True ex' Inr eq])
      qed
    qed
  qed
qed

subsection \<open>An invariant rule for the loop\<close>

lemma tool_loop_rule:
  assumes init: "I round_count msgs current_response tr"
    and continue: "\<And>rc ms cur t ms' cur' t'.
      I rc ms cur t \<Longrightarrow> rc < MAX_TOOL_ROUNDS \<Longrightarrow>
      tool_round self bp tm (rc + 1) ms cur t = Continue ms' cur' t' \<Longrightarrow> I (rc + 1) ms' cur' t'"
    and return: "\<And>rc ms cur t out.
      I rc ms cur t \<Longrightarrow> rc < MAX_TOOL_ROUNDS \<Longrightarrow>
      tool_round self bp tm (rc + 1) ms cur t = Return out \<Longrightarrow> Q out"
    and exhausted: "\<And>rc ms cur t.
      I rc ms cur t \<Longrightarrow> \<not> rc < MAX_TOOL_ROUNDS \<Longrightarrow>
      Q \<lparr>result = extract_text_content cur, exit_site = MaxRoundsReturn, rounds = rc, trace = t\<rparr>"
  shows "Q (tool_loop self bp tm round_count msgs current_response tr)"
  using assms
proof (induction self bp tm round_count msgs current_response tr rule: tool_loop.induct)
  case (1 self bp tm round_count msgs current_response tr)
  note init = "1.prems"(1) and continue = "1.prems"(2) and return = "1.prems"(3)
    and exhausted = "1.prems"(4)
  show ?case
  proof (cases "round_count < MAX_TOOL_ROUNDS")
    case False
    with exhausted [OF init] show ?thesis
      by (simp add: tool_loop.simps [of self bp tm round_count])
  next
    case True
    show ?thesis
    proof (cases "tool_round self bp tm (round_count + 1) msgs current_response tr")
      case (Return out)
      have "tool_loop self bp tm round_count msgs current_response tr = out"
        using True Return by (simp add: tool_loop.simps [of self bp tm round_count])
      moreover have "Q out"
        by (rule return [OF init True Return])
      ultimately show ?thesis by simp
    next
      case (Continue ms' cur' t')
      have "tool_loop self bp tm round_count msgs current_response tr =
            tool_loop self bp tm (round_count + 1) ms' cur' t'"
        using True Continue by (simp add: tool_loop.simps [of self bp tm round_count])
      moreover have "I (round_count + 1) ms' cur' t'"
        by (rule continue [OF init True Continue])
      then have "Q (tool_loop self bp tm (round_count + 1) ms' cur' t')"
        using continue return exhausted by (rule "1.IH" [OF True Continue])
      ultimately show ?thesis by simp
    qed
  qed
qed

lemmas run_defs = generate_response_def api_params_def handle_tool_execution_def
  tool_round_def execute_all_tools_def next_params_def Let_def MAX_TOOL_ROUNDS_def
  scripted_client_def scripted_generator_def constant_client_def constant_generator_def
  working_tools_def broken_tools_def
  search_block_def outline_block_def text_response_def tool_use_response_def mixed_response_def
  search_schema_def tool_loop.simps extract_text_content_def system_content_def

lemma lm_failed_lm_calls: "ev \<in> set evs \<Longrightarrow> lm_failed ev \<Longrightarrow> lm_calls evs \<noteq> []"
  by (induction evs rule: lm_calls.induct) auto

lemma tool_failed_tool_calls: "ev \<in> set evs \<Longrightarrow> tool_failed ev \<Longrightarrow> tool_calls evs \<noteq> []"
  by (induction evs rule: tool_calls.induct) auto

lemma tool_round_ContinueE:
  assumes "tool_round self bp tm rc ms cur t = Continue ms' cur' t'"
  obtains c trs new r where
    "cur = Some c" "stop_reason c = ''tool_use''"
    "execute_all_tools c tm rc t = ((trs, True), t @ new)"
    "lm_calls new = []" "\<forall>ev \<in> set new. \<not> tool_failed ev"
    "map tool_use_id trs = map block_id (filter is_tool_use (content c))"
    "client self (t @ new) (next_params self bp ms') = Inr r"
    "ms' = ms @ round_messages c trs" "cur' = Some r"
    "t' = t @ new @ [LMCall (next_params self bp ms') (Inr r)]"
proof (cases rule: tool_round_cases [of cur self bp tm rc ms t])
  case no_response
  with assms show ?thesis by simp
next
  case (no_tool_use c)
  with assms show ?thesis by simp
next
  case (tool_failure c trs tr1)
  with assms show ?thesis by simp
next
  case (lm_failure c trs tr1 e)
  with assms show ?thesis by simp
next
  case (next_round c trs tr1 r)
  from execute_all_tools_trace [OF next_round(3)] obtain new where
    new: "tr1 = t @ new" "lm_calls new = []" "\<forall>ev \<in> set new. \<not> tool_failed ev"
      "map tool_use_id trs = map block_id (filter is_tool_use (content c))"
    by auto
  from trans [OF assms [symmetric] next_round(5)] have
    eqs: "ms' = ms @ round_messages c trs" "cur' = Some r"
      "t' = tr1 @ [LMCall (next_params self bp (ms @ round_messages c trs)) (Inr r)]"
    by auto
  show ?thesis
  proof (rule that [of c trs new r])
    show "cur = Some c" by (rule next_round(1))
    show "stop_reason c = ''tool_use''" by (rule next_round(2))
    show "execute_all_tools c tm rc t = ((trs, True), t @ new)" using next_round(3) new(1) by simp
    show "lm_calls new = []" by (rule new(2))
    show "\<forall>ev \<in> set new. \<not> tool_failed ev" by (rule new(3))
    show "map tool_use_id trs = map block_id (filter is_tool_use (content c))" by (rule new(4))
    show "client self (t @ new) (next_params self bp ms') = Inr r"
      using next_round(4) new(1) eqs(1) by simp
    show "ms' = ms @ round_messages c trs" by (rule eqs(1))
    show "cur' = Some r" by (rule eqs(2))
    show "t' = t @ new @ [LMCall (next_params self bp ms') (Inr r)]"
      using eqs new(1) by simp
  qed
qed

lemma tool_round_ReturnE:
  assumes "tool_round self bp tm rc ms cur t = Return out"
  obtains
    (no_response) "cur = None"
      "out = \<lparr>result = Inl (AttributeError ''NoneType object has no attribute stop_reason''),
              exit_site = StopReasonRaised, rounds = rc, trace = t\<rparr>"
  | (no_tool_use) c where "cur = Some c" "stop_reason c \<noteq> ''tool_use''"
      "out = \<lparr>result = extract_text_content (Some c),
              exit_site = NoToolUseReturn, rounds = rc, trace = t\<rparr>"
  | (tool_failure) c new where "cur = Some c" "stop_reason c = ''tool_use''"
      "execute_all_tools c tm rc t = (([], False), t @ new)"
      "lm_calls new = []" "new \<noteq> []" "tool_failed (last new)"
      "\<forall>ev \<in> set (butlast new). \<not> tool_failed ev"
      "out = \<lparr>result = Inr TOOL_FAILURE_TEXT,
              exit_site = ToolFailureReturn, rounds = rc, trace = t @ new\<rparr>"
  | (lm_failure) c trs new e where "cur = Some c" "stop_reason c = ''tool_use''"
      "execute_all_tools c tm rc t = ((trs, True), t @ new)"
      "lm_calls new = []" "\<forall>ev \<in> set new. \<not> tool_failed ev"
      "map tool_use_id trs = map block_id (filter is_tool_use (content c))"
      "client self (t @ new) (next_params self bp (ms @ round_messages c trs)) = Inl e"
      "out = \<lparr>result = extract_text_content (Some c),
              exit_site = LMFailureTextReturn, rounds = rc,
              trace = t @ new @ [LMCall (next_params self bp (ms @ round_messages c trs)) (Inl e)]\<rparr>"
proof (cases rule: tool_round_cases [of cur self bp tm rc ms t])
  case no_response
  with assms that(1) show ?thesis by simp
next
  case (no_tool_use c)
  with assms that(2) show ?thesis by simp
next
  case (tool_failure c trs tr1)
  from execute_all_tools_trace [OF tool_failure(3)] obtain new where
    new: "tr1 = t @ new" "lm_calls new = []" "trs = []" "new \<noteq> []" "tool_failed (last new)"
      "\<forall>ev \<in> set (butlast new). \<not> tool_failed ev"
    by auto
  show ?thesis
  proof (rule that(3) [of c new])
    show "cur = Some c" by (rule tool_failure(1))
    show "stop_reason c = ''tool_use''" by (rule tool_failure(2))
    show "execute_all_tools c tm rc t = (([], False), t @ new)"
      using tool_failure(3) new(1,3) by simp
    show "lm_calls new = []" by (rule new(2))
    show "new \<noteq> []" by (rule new(4))
    show "tool_failed (last new)" by (rule new(5))
    show "\<forall>ev \<in> set (butlast new). \<not> tool_failed ev" by (rule new(6))
    show "out = \<lparr>result = Inr TOOL_FAILURE_TEXT,
              exit_site = ToolFailureReturn, rounds = rc, trace = t @ new\<rparr>"
      using assms tool_failure(4) new(1) by simp
  qed
next
  case (lm_failure c trs tr1 e)
  from execute_all_tools_trace [OF lm_failure(3)] obtain new where
    new: "tr1 = t @ new" "lm_calls new = []" "\<forall>ev \<in> set new. \<not> tool_failed ev"
      "map tool_use_id trs = map block_id (filter is_tool_use (content c))"
    by auto
  show ?thesis
  proof (rule that(4) [of c trs new e])
    show "cur = Some c" by (rule lm_failure(1))
    show "stop_reason c = ''tool_use''" by (rule lm_failure(2))
    show "execute_all_tools c tm rc t = ((trs, True), t @ new)"
      using lm_failure(3) new(1) by simp
    show "lm_calls new = []" by (rule new(2))
    show "\<forall>ev \<in> set new. \<not> tool_failed ev" by (rule new(3))
    show "map tool_use_id trs = map block_id (filter is_tool_use (content c))" by (rule new(4))
    show "client self (t @ new) (next_params self bp (ms @ round_messages c trs)) = Inl e"
      using lm_failure(4) new(1) by simp
    show "out = \<lparr>result = extract_text_content (Some c),
              exit_site = LMFailureTextReturn, rounds = rc,
              trace = t @ new @ [LMCall (next_params self bp (ms @ round_messages c trs)) (Inl e)]\<rparr>"
      using assms lm_failure(5) new(1) by simp
  qed
next
  case (next_round c trs tr1 r)
  with assms show ?thesis by simp
qed

subsection \<open>The three ways through \<^verbatim>\<open>generate_response\<close>\<close>

lemma generate_response_cases:
  obtains
    (first_call_raised) e where
      "client self [] (api_params self query h ts) = Inl e"
      "generate_response self query h ts tmo =
         \<lparr>result = Inl e, exit_site = FirstCallRaised, rounds = 0,
          trace = [LMCall (api_params self query h ts) (Inl e)]\<rparr>"
  | (direct) r where
      "client self [] (api_params self query h ts) = Inr r"
      "stop_reason r \<noteq> ''tool_use'' \<or> tmo = None"
      "generate_response self query h ts tmo =
         \<lparr>result = (case getitem0 (content r) of Inl e \<Rightarrow> Inl e | Inr b0 \<Rightarrow> get_text b0),
          exit_site = DirectReturn, rounds = 0,
          trace = [LMCall (api_params self query h ts) (Inr r)]\<rparr>"
  | (tool_rounds) r tm where
      "client self [] (api_params self query h ts) = Inr r"
      "stop_reason r = ''tool_use''" "tmo = Some tm"
      "generate_response self query h ts tmo =
         tool_loop self (api_params self query h ts) tm 0 (messages (api_params self query h ts))
           (Some r) [LMCall (api_params self query h ts) (Inr r)]"
proof (cases "client self [] (api_params self query h ts)")
  case (Inl e)
  then show ?thesis using first_call_raised by (simp add: generate_response_def)
next
  case (Inr r)
  show ?thesis
  proof (cases "stop_reason r = ''tool_use''")
    case False
    with Inr show ?thesis using direct by (simp add: generate_response_def)
  next
    case True
    show ?thesis
    proof (cases tmo)
      case None
      with Inr True show ?thesis using direct by (simp add: generate_response_def)
    next
      case (Some tm)
      with Inr True show ?thesis
        using tool_rounds by (simp add: generate_response_def handle_tool_execution_def Let_def)
    qed
  qed
qed

lemma scan_text_blocks_find:
  "scan_text_blocks bs =
     (case List.find hasattr_text bs of None \<Rightarrow> None | Some b \<Rightarrow> Some (Inr (block_text b)))"
proof (induction bs)
  case Nil
  show ?case by simp
next
  case (Cons b bs)
  show ?case
  proof (cases b)
    case (Text t)
    then show ?thesis by simp
  next
    case (ToolUse i n a)
    with Cons show ?thesis by simp
  qed
qed

lemma extract_text_content_find:
  assumes "List.find hasattr_text (content r) = Some b"
  shows "extract_text_content (Some r) = Inr (block_text b)"
proof (cases "content r")
  case Nil
  with assms show ?thesis by simp
next
  case (Cons b0 bs)
  show ?thesis
  proof (cases b0)
    case (Text t)
    with Cons assms have "b = Text t" by simp
    with Cons Text show ?thesis by (simp add: extract_text_content_def)
  next
    case (ToolUse i n a)
    with Cons assms have "List.find hasattr_text bs = Some b" by simp
    with Cons ToolUse show ?thesis
      by (simp add: extract_text_content_def scan_text_blocks_find)
  qed
qed

lemma extract_text_content_no_text:
  assumes "List.find hasattr_text (content r) = None"
  shows "extract_text_content (Some r) = Inr NO_RESPONSE_TEXT
     \<or> extract_text_content (Some r) = Inr NO_TEXT_BLOCK_TEXT"
proof (cases "content r")
  case Nil
  then show ?thesis by (simp add: extract_text_content_def)
next
  case (Cons b0 bs)
  show ?thesis
  proof (cases b0)
    case (Text t)
    with Cons assms show ?thesis by simp
  next
    case (ToolUse i n a)
    with Cons assms have "List.find hasattr_text bs = None" by simp
    with Cons ToolUse show ?thesis
      by (simp add: extract_text_content_def scan_text_blocks_find)
  qed
qed

lemma extract_text_content_returns: "\<exists>s. extract_text_content resp = Inr s"
proof (cases resp)
  case None
  then show ?thesis by (simp add: extract_text_content_def)
next
  case (Some r)
  show ?thesis
  proof (cases "content r")
    case Nil
    with Some show ?thesis by (simp add: extract_text_content_def)
  next
    case (Cons b0 bs)
    with Some show ?thesis
      by (cases b0) (simp_all add: extract_text_content_def scan_text_blocks_find split: option.split)
  qed
qed

subsection \<open>Tool failures\<close>

lemma tool_loop_tool_failure:
  assumes "\<forall>ev \<in> set tr. \<not> tool_failed ev"
  shows "(\<forall>ev \<in> set (trace (tool_loop self bp tm rc ms cur tr)). \<not> tool_failed ev)
     \<or> (trace (tool_loop self bp tm rc ms cur tr) \<noteq> []
        \<and> tool_failed (last (trace (tool_loop self bp tm rc ms cur tr)))
        \<and> (\<forall>ev \<in> set (butlast (trace (tool_loop self bp tm rc ms cur tr))). \<not> tool_failed ev)
        \<and> result (tool_loop self bp tm rc ms cur tr) = Inr TOOL_FAILURE_TEXT
        \<and> exit_site (tool_loop self bp tm rc ms cur tr) = ToolFailureReturn)"
    (is "?Q (tool_loop self bp tm rc ms cur tr)")
proof (rule tool_loop_rule [where I = "\<lambda>rc ms cur t. \<forall>ev \<in> set t. \<not> tool_failed ev" and Q = ?Q])
  show "\<forall>ev \<in> set tr. \<not> tool_failed ev" by (rule assms)
next
  fix rc ms cur t ms' cur' t'
  assume inv: "\<forall>ev \<in> set t. \<not> tool_failed ev"
    and step: "tool_round self bp tm (rc + 1) ms cur t = Continue ms' cur' t'"
  from step show "\<forall>ev \<in> set t'. \<not> tool_failed ev"
  proof (rule tool_round_ContinueE)
    fix c trs new r
    assume "t' = t @ new @ [LMCall (next_params self bp ms') (Inr r)]"
      and "\<forall>ev \<in> set new. \<not> tool_failed ev"
    with inv show ?thesis by auto
  qed
next
  fix rc ms cur t out
  assume inv: "\<forall>ev \<in> set t. \<not> tool_failed ev"
    and step: "tool_round self bp tm (rc + 1) ms cur t = Return out"
  from step show "?Q out"
  proof (cases rule: tool_round_ReturnE)
    case no_response
    with inv show ?thesis by simp
  next
    case (no_tool_use c)
    with inv show ?thesis by simp
  next
    case (tool_failure c new)
    have "butlast (t @ new) = t @ butlast new" using tool_failure(5) by (simp add: butlast_append)
    with inv tool_failure show ?thesis by auto
  next
    case (lm_failure c trs new e)
    with inv show ?thesis by auto
  qed
next
  fix rc ms cur t
  assume "\<forall>ev \<in> set t. \<not> tool_failed ev"
  then show "?Q \<lparr>result = extract_text_content cur, exit_site = MaxRoundsReturn, rounds = rc, trace = t\<rparr>"
    by simp
qed

lemma generate_response_tool_failure:
  "(\<forall>ev \<in> set (trace (generate_response self query h ts tmo)). \<not> tool_failed ev)
     \<or> (trace (generate_response self query h ts tmo) \<noteq> []
        \<and> tool_failed (last (trace (generate_response self query h ts tmo)))
        \<and> (\<forall>ev \<in> set (butlast (trace (generate_response self query h ts tmo))). \<not> tool_failed ev)
        \<and> result (generate_response self query h ts tmo) = Inr TOOL_FAILURE_TEXT
        \<and> exit_site (generate_response self query h ts tmo) = ToolFailureReturn)"
proof (cases rule: generate_response_cases [of self query h ts tmo])
  case (first_call_raised e)
  then show ?thesis by simp
next
  case (direct r)
  then show ?thesis by simp
next
  case (tool_rounds r tm)
  show ?thesis
    unfolding tool_rounds(4)
    by (rule tool_loop_tool_failure) simp
qed

subsection \<open>Runs in which every response asks for tools\<close>

lemma run_tool_blocks_succeeds:
  assumes "\<forall>tr n a. \<exists>s. tm tr n a = Inr s"
  shows "snd (fst (run_tool_blocks tm bs acc tr))"
  using assms
proof (induction tm bs acc tr rule: run_tool_blocks.induct)
  case (1 tm tool_results tr)
  show ?case by simp
next
  case (2 tm t bs tool_results tr)
  then show ?case by simp
next
  case (3 tm i n a bs tool_results tr)
  from "3.prems" obtain s where s: "tm tr n a = Inr s" by blast
  with "3.IH" [OF s "3.prems"] show ?case by simp
qed

lemma tool_loop_all_tool_use:
  assumes lm: "\<forall>tr req. \<exists>r. client self tr req = Inr r \<and> stop_reason r = ''tool_use''"
    and tools: "\<forall>tr n a. \<exists>s. tm tr n a = Inr s"
    and rc: "rc \<le> MAX_TOOL_ROUNDS"
    and cur: "stop_reason c = ''tool_use''"
    and last: "last_response c0 tr = Some c"
  shows "rounds (tool_loop self bp tm rc ms (Some c) tr) = MAX_TOOL_ROUNDS
     \<and> exit_site (tool_loop self bp tm rc ms (Some c) tr) = MaxRoundsReturn
     \<and> length (lm_calls (trace (tool_loop self bp tm rc ms (Some c) tr)))
         = length (lm_calls tr) + (MAX_TOOL_ROUNDS - rc)
     \<and> result (tool_loop self bp tm rc ms (Some c) tr)
         = extract_text_content (last_response c0 (trace (tool_loop self bp tm rc ms (Some c) tr)))"
    (is "?Q (tool_loop self bp tm rc ms (Some c) tr)")
proof (rule tool_loop_rule [where
      I = "\<lambda>rc' ms' cur' t'. rc' \<le> MAX_TOOL_ROUNDS
             \<and> (\<exists>c'. cur' = Some c' \<and> stop_reason c' = ''tool_use'')
             \<and> last_response c0 t' = cur'
             \<and> length (lm_calls t') + (MAX_TOOL_ROUNDS - rc') = length (lm_calls tr) + (MAX_TOOL_ROUNDS - rc)"
      and Q = ?Q])
  show "rc \<le> MAX_TOOL_ROUNDS \<and> (\<exists>c'. Some c = Some c' \<and> stop_reason c' = ''tool_use'')
      \<and> last_response c0 tr = Some c
      \<and> length (lm_calls tr) + (MAX_TOOL_ROUNDS - rc) = length (lm_calls tr) + (MAX_TOOL_ROUNDS - rc)"
    using rc cur last by simp
next
  fix rc' ms' cur' t' ms'' cur'' t''
  assume inv: "rc' \<le> MAX_TOOL_ROUNDS \<and> (\<exists>c'. cur' = Some c' \<and> stop_reason c' = ''tool_use'')
      \<and> last_response c0 t' = cur'
      \<and> length (lm_calls t') + (MAX_TOOL_ROUNDS - rc') = length (lm_calls tr) + (MAX_TOOL_ROUNDS - rc)"
    and lt: "rc' < MAX_TOOL_ROUNDS"
    and step: "tool_round self bp tm (rc' + 1) ms' cur' t' = Continue ms'' cur'' t''"
  from step show "rc' + 1 \<le> MAX_TOOL_ROUNDS \<and> (\<exists>c'. cur'' = Some c' \<and> stop_reason c' = ''tool_use'')
      \<and> last_response c0 t'' = cur''
      \<and> length (lm_calls t'') + (MAX_TOOL_ROUNDS - (rc' + 1)) = length (lm_calls tr) + (MAX_TOOL_ROUNDS - rc)"
  proof (rule tool_round_ContinueE)
    fix c1 trs new r
    assume new: "lm_calls new = []"
      and call: "client self (t' @ new) (next_params self bp ms'') = Inr r"
      and cur'': "cur'' = Some r"
      and t'': "t'' = t' @ new @ [LMCall (next_params self bp ms'') (Inr r)]"
    from lm call have "stop_reason r = ''tool_use''" by (metis sum.inject(2))
    moreover have "last_response c0 t'' = Some r"
      using t'' by (simp add: last_response_append)
    moreover have "length (lm_calls t'') = length (lm_calls t') + 1"
      using t'' new by (simp add: lm_calls_append)
    ultimately show ?thesis using inv lt cur'' by auto
  qed
next
  fix rc' ms' cur' t' out
  assume inv: "rc' \<le> MAX_TOOL_ROUNDS \<and> (\<exists>c'. cur' = Some c' \<and> stop_reason c' = ''tool_use'')
      \<and> last_response c0 t' = cur'
      \<and> length (lm_calls t') + (MAX_TOOL_ROUNDS - rc') = length (lm_calls tr) + (MAX_TOOL_ROUNDS - rc)"
    and step: "tool_round self bp tm (rc' + 1) ms' cur' t' = Return out"
  from step show "?Q out"
  proof (cases rule: tool_round_ReturnE)
    case no_response
    with inv show ?thesis by simp
  next
    case (no_tool_use c1)
    with inv show ?thesis by simp
  next
    case (tool_failure c1 new)
    from run_tool_blocks_succeeds [OF tools, of "content c1" "[]" t'] tool_failure(3)
    show ?thesis by (simp add: execute_all_tools_def)
  next
    case (lm_failure c1 trs new e)
    with lm show ?thesis by (metis sum.distinct(1))
  qed
next
  fix rc' ms' cur' t'
  assume inv: "rc' \<le> MAX_TOOL_ROUNDS \<and> (\<exists>c'. cur' = Some c' \<and> stop_reason c' = ''tool_use'')
      \<and> last_response c0 t' = cur'
      \<and> length (lm_calls t') + (MAX_TOOL_ROUNDS - rc') = length (lm_calls tr) + (MAX_TOOL_ROUNDS - rc)"
    and ge: "\<not> rc' < MAX_TOOL_ROUNDS"
  then have "rc' = MAX_TOOL_ROUNDS" by simp
  with inv show "?Q \<lparr>result = extract_text_content cur', exit_site = MaxRoundsReturn, rounds = rc', trace = t'\<rparr>"
    by simp
qed

lemma generate_response_all_tool_use:
  assumes lm: "\<forall>tr req. \<exists>r. client self tr req = Inr r \<and> stop_reason r = ''tool_use''"
    and tools: "\<forall>tr n a. \<exists>s. tm tr n a = Inr s"
  shows "rounds (generate_response self query h ts (Some tm)) = MAX_TOOL_ROUNDS
     \<and> length (lm_calls (trace (generate_response self query h ts (Some tm)))) = MAX_TOOL_ROUNDS + 1
     \<and> exit_site (generate_response self query h ts (Some tm)) = MaxRoundsReturn
     \<and> result (generate_response self query h ts (Some tm))
         = extract_text_content (last_response None (trace (generate_response self query h ts (Some tm))))"
proof (cases rule: generate_response_cases [of self query h ts "Some tm"])
  case (first_call_raised e)
  with lm show ?thesis by (metis sum.distinct(1))
next
  case (direct r)
  with lm show ?thesis by (metis sum.inject(2) option.distinct(1))
next
  case (tool_rounds r tm')
  then have tm': "tm' = tm" by simp
  have "last_response None [LMCall (api_params self query h ts) (Inr r)] = Some r" by simp
  from tool_loop_all_tool_use [OF lm tools _ tool_rounds(2) this, of 0 "api_params self query h ts"
      "messages (api_params self query h ts)"]
  show ?thesis unfolding tool_rounds(4) tm' by simp
qed

subsection \<open>The requests of the later rounds\<close>

lemma tool_loop_later_requests:
  "\<exists>later. lm_calls (trace (tool_loop self bp tm rc ms cur tr)) = lm_calls tr @ later
     \<and> (\<forall>c \<in> set later. \<exists>msgs. fst c = next_params self bp msgs)"
    (is "?Q (tool_loop self bp tm rc ms cur tr)")
proof (rule tool_loop_rule [where
      I = "\<lambda>rc' ms' cur' t'. \<exists>later. lm_calls t' = lm_calls tr @ later
             \<and> (\<forall>c \<in> set later. \<exists>msgs. fst c = next_params self bp msgs)"
      and Q = ?Q])
  show "\<exists>later. lm_calls tr = lm_calls tr @ later
      \<and> (\<forall>c \<in> set later. \<exists>msgs. fst c = next_params self bp msgs)"
    by simp
next
  fix rc' ms' cur' t' ms'' cur'' t''
  assume "\<exists>later. lm_calls t' = lm_calls tr @ later
      \<and> (\<forall>c \<in> set later. \<exists>msgs. fst c = next_params self bp msgs)"
  then obtain later where later: "lm_calls t' = lm_calls tr @ later"
    "\<forall>c \<in> set later. \<exists>msgs. fst c = next_params self bp msgs" by blast
  assume "tool_round self bp tm (rc' + 1) ms' cur' t' = Continue ms'' cur'' t''"
  then show "\<exists>later. lm_calls t'' = lm_calls tr @ later
      \<and> (\<forall>c \<in> set later. \<exists>msgs. fst c = next_params self bp msgs)"
  proof (rule tool_round_ContinueE)
    fix c1 trs new r
    assume "lm_calls new = []" "t'' = t' @ new @ [LMCall (next_params self bp ms'') (Inr r)]"
    with later have "lm_calls t'' = lm_calls tr @ (later @ [(next_params self bp ms'', Inr r)])"
      by (simp add: lm_calls_append)
    moreover have "\<forall>c \<in> set (later @ [(next_params self bp ms'', Inr r)]).
        \<exists>msgs. fst c = next_params self bp msgs"
      using later(2) by auto
    ultimately show ?thesis by blast
  qed
next
  fix rc' ms' cur' t' out
  assume "\<exists>later. lm_calls t' = lm_calls tr @ later
      \<and> (\<forall>c \<in> set later. \<exists>msgs. fst c = next_params self bp msgs)"
  then obtain later where later: "lm_calls t' = lm_calls tr @ later"
    "\<forall>c \<in> set later. \<exists>msgs. fst c = next_params self bp msgs" by blast
  assume "tool_round self bp tm (rc' + 1) ms' cur' t' = Return out"
  then show "?Q out"
  proof (cases rule: tool_round_ReturnE)
    case no_response
    with later show ?thesis by simp
  next
    case (no_tool_use c1)
    with later show ?thesis by simp
  next
    case (tool_failure c1 new)
    with later show ?thesis by (simp add: lm_calls_append)
  next
    case (lm_failure c1 trs new e)
    let ?req = "next_params self bp (ms' @ round_messages c1 trs)"
    from lm_failure later have "lm_calls (trace out) = lm_calls tr @ (later @ [(?req, Inl e)])"
      by (simp add: lm_calls_append)
    moreover have "\<forall>c \<in> set (later @ [(?req, Inl e)]). \<exists>msgs. fst c = next_params self bp msgs"
      using later(2) by auto
    ultimately show ?thesis by blast
  qed
next
  fix rc' ms' cur' t'
  assume "\<exists>later. lm_calls t' = lm_calls tr @ later
      \<and> (\<forall>c \<in> set later. \<exists>msgs. fst c = next_params self bp msgs)"
  then show "?Q \<lparr>result = extract_text_content cur', exit_site = MaxRoundsReturn, rounds = rc', trace = t'\<rparr>"
    by simp
qed

lemma generate_response_requests:
  "\<exists>res later. lm_calls (trace (generate_response self query h ts tmo))
        = (api_params self query h ts, res) # later
     \<and> (\<forall>c \<in> set later. \<exists>msgs. fst c = next_params self (api_params self query h ts) msgs)"
proof (cases rule: generate_response_cases [of self query h ts tmo])
  case (first_call_raised e)
  then show ?thesis by simp
next
  case (direct r)
  then show ?thesis by simp
next
  case (tool_rounds r tm)
  from tool_loop_later_requests [of self "api_params self query h ts" tm 0
      "messages (api_params self query h ts)" "Some r" "[LMCall (api_params self query h ts) (Inr r)]"]
  have "\<exists>later. lm_calls (trace (tool_loop self (api_params self query h ts) tm 0
        (messages (api_params self query h ts)) (Some r) [LMCall (api_params self query h ts) (Inr r)]))
        = (api_params self query h ts, Inr r) # later
     \<and> (\<forall>c \<in> set later. \<exists>msgs. fst c = next_params self (api_params self query h ts) msgs)"
    by simp
  then show ?thesis unfolding tool_rounds(4) by blast
qed

lemma api_params_fields:
  "system (api_params self query h ts) = system_content h"
  "truthy ts \<Longrightarrow> tools (api_params self query h ts) = ts"
  "truthy ts \<Longrightarrow> tool_choice (api_params self query h ts) = Some ChoiceAuto"
  "\<not> truthy ts \<Longrightarrow> tools (api_params self query h ts) = None"
  "\<not> truthy ts \<Longrightarrow> tool_choice (api_params self query h ts) = None"
  by (simp_all add: api_params_def Let_def)

subsection \<open>A failing LM call inside the loop\<close>

lemma no_lm_calls_no_lm_failed: "lm_calls evs = [] \<Longrightarrow> \<forall>ev \<in> set evs. \<not> lm_failed ev"
  using lm_failed_lm_calls by blast

lemma tool_loop_lm_failure:
  "\<exists>new. trace (tool_loop self bp tm rc ms cur tr) = tr @ new
     \<and> exit_site (tool_loop self bp tm rc ms cur tr) \<noteq> LMFailureMessageReturn
     \<and> ((\<exists>ev \<in> set new. lm_failed ev) \<longrightarrow>
           lm_failed (last new)
         \<and> (\<forall>ev \<in> set (butlast new). \<not> lm_failed ev)
         \<and> exit_site (tool_loop self bp tm rc ms cur tr) = LMFailureTextReturn
         \<and> (\<exists>r. last_response cur new = Some r \<and> stop_reason r = ''tool_use''
               \<and> result (tool_loop self bp tm rc ms cur tr) = extract_text_content (Some r)))"
    (is "?Q (tool_loop self bp tm rc ms cur tr)")
proof (rule tool_loop_rule [where
      I = "\<lambda>rc' ms' cur' t'. \<exists>new. t' = tr @ new \<and> (\<forall>ev \<in> set new. \<not> lm_failed ev)
             \<and> cur' = last_response cur new"
      and Q = ?Q])
  show "\<exists>new. tr = tr @ new \<and> (\<forall>ev \<in> set new. \<not> lm_failed ev) \<and> cur = last_response cur new"
    by simp
next
  fix rc' ms' cur' t' ms'' cur'' t''
  assume "\<exists>new. t' = tr @ new \<and> (\<forall>ev \<in> set new. \<not> lm_failed ev) \<and> cur' = last_response cur new"
  then obtain new where new: "t' = tr @ new" "\<forall>ev \<in> set new. \<not> lm_failed ev"
    "cur' = last_response cur new" by blast
  assume "tool_round self bp tm (rc' + 1) ms' cur' t' = Continue ms'' cur'' t''"
  then show "\<exists>new. t'' = tr @ new \<and> (\<forall>ev \<in> set new. \<not> lm_failed ev)
      \<and> cur'' = last_response cur new"
  proof (rule tool_round_ContinueE)
    fix c1 trs batch r
    assume batch: "lm_calls batch = []" and cur'': "cur'' = Some r"
      and t'': "t'' = t' @ batch @ [LMCall (next_params self bp ms'') (Inr r)]"
    let ?new = "new @ batch @ [LMCall (next_params self bp ms'') (Inr r)]"
    have "t'' = tr @ ?new" using t'' new(1) by simp
    moreover have "\<forall>ev \<in> set ?new. \<not> lm_failed ev"
      using new(2) no_lm_calls_no_lm_failed [OF batch] by auto
    moreover have "cur'' = last_response cur ?new"
      using cur'' by (simp add: last_response_append)
    ultimately show ?thesis by blast
  qed
next
  fix rc' ms' cur' t' out
  assume "\<exists>new. t' = tr @ new \<and> (\<forall>ev \<in> set new. \<not> lm_failed ev) \<and> cur' = last_response cur new"
  then obtain new where new: "t' = tr @ new" "\<forall>ev \<in> set new. \<not> lm_failed ev"
    "cur' = last_response cur new" by blast
  assume "tool_round self bp tm (rc' + 1) ms' cur' t' = Return out"
  then show "?Q out"
  proof (cases rule: tool_round_ReturnE)
    case no_response
    with new show ?thesis by auto
  next
    case (no_tool_use c1)
    with new show ?thesis by auto
  next
    case (tool_failure c1 batch)
    have "trace out = tr @ (new @ batch)" using tool_failure(8) new(1) by simp
    moreover have "\<forall>ev \<in> set (new @ batch). \<not> lm_failed ev"
      using new(2) no_lm_calls_no_lm_failed [OF tool_failure(4)] by auto
    moreover have "exit_site out \<noteq> LMFailureMessageReturn" using tool_failure(8) by simp
    ultimately show ?thesis by blast
  next
    case (lm_failure c1 trs batch e)
    let ?ev = "LMCall (next_params self bp (ms' @ round_messages c1 trs)) (Inl e)"
    let ?new = "new @ batch @ [?ev]"
    have tr: "trace out = tr @ ?new" using lm_failure(8) new(1) by simp
    have last: "lm_failed (last ?new)" by simp
    have "butlast ?new = new @ batch" by (simp add: butlast_append)
    then have before: "\<forall>ev \<in> set (butlast ?new). \<not> lm_failed ev"
      using new(2) no_lm_calls_no_lm_failed [OF lm_failure(4)] by auto
    have "last_response cur ?new = last_response (Some c1) (batch @ [?ev])"
      using new(3) lm_failure(1) by (simp add: last_response_append)
    also have "\<dots> = Some c1"
      using lm_failure(4) by (simp add: last_response_append last_response_no_lm)
    finally have resp: "last_response cur ?new = Some c1" .
    have "\<exists>r. last_response cur ?new = Some r \<and> stop_reason r = ''tool_use''
        \<and> result out = extract_text_content (Some r)"
      using resp lm_failure(2,8) by simp
    moreover have "exit_site out = LMFailureTextReturn" using lm_failure(8) by simp
    ultimately show ?thesis using tr last before by (intro exI [of _ ?new]) simp
  qed
next
  fix rc' ms' cur' t'
  assume "\<exists>new. t' = tr @ new \<and> (\<forall>ev \<in> set new. \<not> lm_failed ev) \<and> cur' = last_response cur new"
  then show "?Q \<lparr>result = extract_text_content cur', exit_site = MaxRoundsReturn, rounds = rc', trace = t'\<rparr>"
    by auto
qed

lemma successively_snoc:
  "successively P (xs @ [x]) \<Longrightarrow> P x y \<Longrightarrow> successively P (xs @ [x, y])"
  by (simp add: successively_append_iff)

lemma successively_middle:
  "successively P (pre @ x # y # post) \<Longrightarrow> P x y"
  by (simp add: successively_append_iff)

subsection \<open>Tool results reach the next request\<close>

lemma tool_loop_handover:
  assumes "lm_calls tr = cs @ [(req, Inr c)]" "ms = messages req"
    "successively results_handed_over (lm_calls tr)"
  shows "successively results_handed_over (lm_calls (trace (tool_loop self bp tm rc ms (Some c) tr)))"
    (is "?Q (tool_loop self bp tm rc ms (Some c) tr)")
proof (rule tool_loop_rule [where
      I = "\<lambda>rc' ms' cur' t'. \<exists>cs' req' c'. lm_calls t' = cs' @ [(req', Inr c')] \<and> cur' = Some c'
             \<and> ms' = messages req' \<and> successively results_handed_over (lm_calls t')"
      and Q = ?Q])
  show "\<exists>cs' req' c'. lm_calls tr = cs' @ [(req', Inr c')] \<and> Some c = Some c'
      \<and> ms = messages req' \<and> successively results_handed_over (lm_calls tr)"
    using assms by blast
next
  fix rc' ms' cur' t' ms'' cur'' t''
  assume "\<exists>cs' req' c'. lm_calls t' = cs' @ [(req', Inr c')] \<and> cur' = Some c'
      \<and> ms' = messages req' \<and> successively results_handed_over (lm_calls t')"
  then obtain cs' req' c' where inv: "lm_calls t' = cs' @ [(req', Inr c')]" "cur' = Some c'"
    "ms' = messages req'" "successively results_handed_over (lm_calls t')" by blast
  assume "tool_round self bp tm (rc' + 1) ms' cur' t' = Continue ms'' cur'' t''"
  then show "\<exists>cs' req' c'. lm_calls t'' = cs' @ [(req', Inr c')] \<and> cur'' = Some c'
      \<and> ms'' = messages req' \<and> successively results_handed_over (lm_calls t'')"
  proof (rule tool_round_ContinueE)
    fix c1 trs batch r
    assume c1: "cur' = Some c1" and batch: "lm_calls batch = []"
      and ids: "map tool_use_id trs = map block_id (filter is_tool_use (content c1))"
      and ms'': "ms'' = ms' @ round_messages c1 trs" and cur'': "cur'' = Some r"
      and t'': "t'' = t' @ batch @ [LMCall (next_params self bp ms'') (Inr r)]"
    let ?req = "next_params self bp ms''"
    from c1 inv(2) have [simp]: "c1 = c'" by simp
    have calls: "lm_calls t'' = cs' @ [(req', Inr c'), (?req, Inr r)]"
      using t'' batch inv(1) by (simp add: lm_calls_append)
    have "results_handed_over (req', Inr c') (?req, Inr r)"
      using ids ms'' inv(3) by (auto simp add: results_handed_over_def next_params_def)
    with inv(1,4) have "successively results_handed_over (cs' @ [(req', Inr c'), (?req, Inr r)])"
      by (simp add: successively_snoc)
    with calls have "successively results_handed_over (lm_calls t'')" by simp
    moreover have "lm_calls t'' = (cs' @ [(req', Inr c')]) @ [(?req, Inr r)]" using calls by simp
    moreover have "ms'' = messages ?req" by (simp add: next_params_def)
    ultimately show ?thesis using cur'' by blast
  qed
next
  fix rc' ms' cur' t' out
  assume "\<exists>cs' req' c'. lm_calls t' = cs' @ [(req', Inr c')] \<and> cur' = Some c'
      \<and> ms' = messages req' \<and> successively results_handed_over (lm_calls t')"
  then obtain cs' req' c' where inv: "lm_calls t' = cs' @ [(req', Inr c')]" "cur' = Some c'"
    "ms' = messages req'" "successively results_handed_over (lm_calls t')" by blast
  assume "tool_round self bp tm (rc' + 1) ms' cur' t' = Return out"
  then show "?Q out"
  proof (cases rule: tool_round_ReturnE)
    case no_response
    with inv show ?thesis by simp
  next
    case (no_tool_use c1)
    with inv show ?thesis by simp
  next
    case (tool_failure c1 batch)
    with inv show ?thesis by (simp add: lm_calls_append)
  next
    case (lm_failure c1 trs batch e)
    let ?req = "next_params self bp (ms' @ round_messages c1 trs)"
    from lm_failure(1) inv(2) have [simp]: "c1 = c'" by simp
    have calls: "lm_calls (trace out) = cs' @ [(req', Inr c'), (?req, Inl e)]"
      using lm_failure(4,8) inv(1) by (simp add: lm_calls_append)
    have "results_handed_over (req', Inr c') (?req, Inl e)"
      using lm_failure(6) inv(3) by (auto simp add: results_handed_over_def next_params_def)
    with inv(1,4) have "successively results_handed_over (cs' @ [(req', Inr c'), (?req, Inl e)])"
      by (simp add: successively_snoc)
    with calls show ?thesis by simp
  qed
next
  fix rc' ms' cur' t'
  assume "\<exists>cs' req' c'. lm_calls t' = cs' @ [(req', Inr c')] \<and> cur' = Some c'
      \<and> ms' = messages req' \<and> successively results_handed_over (lm_calls t')"
  then show "?Q \<lparr>result = extract_text_content cur', exit_site = MaxRoundsReturn, rounds = rc', trace = t'\<rparr>"
    by auto
qed

lemma generate_response_handover:
  "successively results_handed_over (lm_calls (trace (generate_response self query h ts tmo)))"
proof (cases rule: generate_response_cases [of self query h ts tmo])
  case (first_call_raised e)
  then show ?thesis by simp
next
  case (direct r)
  then show ?thesis by simp
next
  case (tool_rounds r tm)
  show ?thesis unfolding tool_rounds(4)
    by (rule tool_loop_handover [of _ "[]" "api_params self query h ts"]) simp_all
qed

lemma generate_response_tool_exception:
  assumes "ToolCall n a (Inl e) \<in> set (trace (generate_response self query h ts tmo))"
  shows "(\<exists>before. trace (generate_response self query h ts tmo) = before @ [ToolCall n a (Inl e)]
            \<and> (\<forall>ev \<in> set before. \<not> tool_failed ev))
     \<and> result (generate_response self query h ts tmo) = Inr TOOL_FAILURE_TEXT
     \<and> exit_site (generate_response self query h ts tmo) = ToolFailureReturn"
proof -
  let ?tr = "trace (generate_response self query h ts tmo)"
  have failed: "tool_failed (ToolCall n a (Inl e))" by simp
  with assms generate_response_tool_failure [of self query h ts tmo]
  have *: "?tr \<noteq> []" "tool_failed (last ?tr)" "\<forall>ev \<in> set (butlast ?tr). \<not> tool_failed ev"
    "result (generate_response self query h ts tmo) = Inr TOOL_FAILURE_TEXT"
    "exit_site (generate_response self query h ts tmo) = ToolFailureReturn"
    by blast+
  from *(1) have split: "?tr = butlast ?tr @ [last ?tr]" by simp
  with assms have "ToolCall n a (Inl e) \<in> set (butlast ?tr) \<or> ToolCall n a (Inl e) = last ?tr"
    by (metis Un_iff empty_iff empty_set set_ConsD set_append)
  with *(3) failed have "last ?tr = ToolCall n a (Inl e)" by auto
  with split *(3) have "?tr = butlast ?tr @ [ToolCall n a (Inl e)] \<and> (\<forall>ev \<in> set (butlast ?tr). \<not> tool_failed ev)"
    by simp
  with *(4,5) show ?thesis by blast
qed

lemma execute_all_tools_exception:
  assumes "ToolCall n a (Inl e) \<in> set (drop (length tr) (snd (execute_all_tools resp tm rc tr)))"
  shows "fst (execute_all_tools resp tm rc tr) = ([], False)
     \<and> last (snd (execute_all_tools resp tm rc tr)) = ToolCall n a (Inl e)"
proof -
  obtain trs ok tr' where ex: "execute_all_tools resp tm rc tr = ((trs, ok), tr')"
    by (metis surj_pair)
  from execute_all_tools_trace [OF ex] obtain new where
    new: "tr' = tr @ new"
    and good: "ok \<longrightarrow> (\<forall>ev \<in> set new. \<not> tool_failed ev)"
    and bad: "\<not> ok \<longrightarrow> trs = [] \<and> new \<noteq> [] \<and> tool_failed (last new)
              \<and> (\<forall>ev \<in> set (butlast new). \<not> tool_failed ev)"
    by blast
  have failed: "tool_failed (ToolCall n a (Inl e))" by simp
  from assms ex new have mem: "ToolCall n a (Inl e) \<in> set new" by simp
  with good failed have "\<not> ok" by blast
  with bad have *: "trs = []" "new \<noteq> []" "\<forall>ev \<in> set (butlast new). \<not> tool_failed ev"
    by blast+
  from *(2) have "new = butlast new @ [last new]" by simp
  with mem have "ToolCall n a (Inl e) \<in> set (butlast new) \<or> ToolCall n a (Inl e) = last new"
    by (metis Un_iff empty_iff empty_set set_ConsD set_append)
  with *(3) failed have "last new = ToolCall n a (Inl e)" by auto
  with ex new * \<open>\<not> ok\<close> show ?thesis by simp
qed

section \<open>Text extraction\<close>

text \<open>
  Claim C9. For every response object (or \<^verbatim>\<open>None\<close>), \<^verbatim>\<open>_extract_text_content\<close> returns
  normally, never raising: when the response is \<^verbatim>\<open>None\<close> or its content is empty the
  result is the fixed string \<open>NO_RESPONSE_TEXT\<close>; otherwise it is the text of the first
  content element, in list order, that carries text; and when no element carries text it
  is the fixed string \<open>NO_TEXT_BLOCK_TEXT\<close>.
\<close>

theorem extract_text_content_first_text:
  "extract_text_content resp =
     Inr (case resp of
            None \<Rightarrow> NO_RESPONSE_TEXT
          | Some r \<Rightarrow>
              if content r = [] then NO_RESPONSE_TEXT
              else (case List.find hasattr_text (content r) of
                      Some b \<Rightarrow> block_text b
                    | None \<Rightarrow> NO_TEXT_BLOCK_TEXT))"
proof (cases resp)
  case None
  then show ?thesis by (simp add: extract_text_content_def)
next
  case (Some r)
  show ?thesis
  proof (cases "content r")
    case Nil
    with Some show ?thesis by (simp add: extract_text_content_def)
  next
    case (Cons b0 bs)
    show ?thesis
    proof (cases b0)
      case (Text t)
      with Some Cons show ?thesis by (simp add: extract_text_content_def)
    next
      case (ToolUse i n a)
      with Some Cons show ?thesis
        by (simp add: extract_text_content_def scan_text_blocks_find split: option.split)
    qed
  qed
qed

theorem extract_text_content_first_text_witness:
  "extract_text_content (Some \<lparr>stop_reason = ''tool_use'',
       content = [search_block, Text ''first'', outline_block, Text ''second'']\<rparr>) = Inr ''first''
   \<and> extract_text_content (Some tool_use_response) = Inr NO_TEXT_BLOCK_TEXT
   \<and> extract_text_content (Some \<lparr>stop_reason = ''end_turn'', content = []\<rparr>) = Inr NO_RESPONSE_TEXT"
  using extract_text_content_first_text [of "Some \<lparr>stop_reason = ''tool_use'',
       content = [search_block, Text ''first'', outline_block, Text ''second'']\<rparr>"]
    extract_text_content_first_text [of "Some tool_use_response"]
    extract_text_content_first_text [of "Some \<lparr>stop_reason = ''end_turn'', content = []\<rparr>"]
  by (simp add: search_block_def outline_block_def tool_use_response_def)

section \<open>Runs that end at the first response\<close>

text \<open>
  Claim C8 says that a first response with \<^verbatim>\<open>stop_reason == "end_turn"\<close> makes
  \<^verbatim>\<open>generate_response\<close> return that response's text. One LM call is made and no tool is
  executed, but the direct return reads \<^verbatim>\<open>response.content[0].text\<close> instead of calling
  \<^verbatim>\<open>_extract_text_content\<close>, which every other return uses. For an \<^verbatim>\<open>end_turn\<close> response
  whose text block is not the first block the attribute access raises
  \<^verbatim>\<open>AttributeError\<close>, where the extractor returns the text; for one with empty content
  the indexing raises \<^verbatim>\<open>IndexError\<close>, where the extractor returns its fallback string.
\<close>

theorem end_turn_direct_return_raises:
  "result (generate_response (scripted_generator [Inr late_text_response])
      ''What is the capital of France?'' None None None)
     = Inl (AttributeError ''object has no attribute text'')
   \<and> extract_text_content (Some late_text_response) = Inr ''Paris is the capital of France.''
   \<and> result (generate_response (scripted_generator [Inr empty_response])
      ''What is the capital of France?'' None None None)
     = Inl (IndexError ''list index out of range'')
   \<and> extract_text_content (Some empty_response) = Inr NO_RESPONSE_TEXT
   \<and> length (lm_calls (trace (generate_response (scripted_generator [Inr late_text_response])
      ''What is the capital of France?'' None None None))) = 1
   \<and> tool_calls (trace (generate_response (scripted_generator [Inr late_text_response])
      ''What is the capital of France?'' None None None)) = []"
  by (simp add: generate_response_def Let_def scripted_generator_def scripted_client_def
      api_params_def late_text_response_def empty_response_def search_block_def
      extract_text_content_def)

text \<open>
  Claim C2 says that \<^verbatim>\<open>generate_response\<close> never raises, also when the LM call raises.
  The first call, \<^verbatim>\<open>self.client.messages.create(**api_params)\<close>, stands outside any
  \<^verbatim>\<open>try\<close>: when the client raises \<^verbatim>\<open>Exception("API Error")\<close> there, as in the test
  \<^verbatim>\<open>test_anthropic_api_error\<close>, the exception reaches the caller and no string is
  returned.
\<close>

theorem first_call_exception_reaches_caller:
  "result (generate_response (scripted_generator [Inl (Exception ''API Error'')]) ''test query''
      None None None) = Inl (Exception ''API Error'')"
  by (simp add: generate_response_def Let_def scripted_generator_def scripted_client_def)

section \<open>Runs without a tool manager\<close>

text \<open>
  Claim C3 as stated (no tool is executed when \<^verbatim>\<open>tools\<close> is omitted) fails: the gate
  before \<^verbatim>\<open>_handle_tool_execution\<close> tests \<^verbatim>\<open>tool_manager\<close>, not \<^verbatim>\<open>tools\<close>. With
  \<^verbatim>\<open>tools\<close> omitted, a tool manager passed and a first response that asks for a tool,
  the tool is executed.
\<close>

theorem tools_omitted_tool_executed:
  "tool_calls (trace (generate_response (scripted_generator [Inr tool_use_response, Inr text_response])
       ''What is covered in lesson 1?'' None None (Some working_tools)))
   = [(''search_course_content'', [(''query'', ''X'')], Inr ''result of search_course_content'')]"
  by (simp add: run_defs)

text \<open>
  Claim C3, amended. If the \<^verbatim>\<open>tool_manager\<close> argument is omitted then, whatever
  \<^verbatim>\<open>tools\<close> is and whatever the LM answers (also a response whose stop reason claims
  tool use), no tool is executed and exactly one LM call is made; when the first content
  block of the response carries text, that text is returned.
\<close>

theorem no_tool_manager_no_tool_execution:
  "tool_calls (trace (generate_response self query h ts None)) = []
   \<and> length (lm_calls (trace (generate_response self query h ts None))) = 1
   \<and> (\<forall>r t rest. client self [] (api_params self query h ts) = Inr r \<and> content r = Text t # rest
        \<longrightarrow> result (generate_response self query h ts None) = Inr t)"
  by (cases "client self [] (api_params self query h ts)") (auto simp add: generate_response_def Let_def)

theorem no_tool_manager_no_tool_execution_witness:
  "tool_calls (trace (generate_response (scripted_generator [Inr mixed_response]) ''q'' None None None)) = []
   \<and> length (lm_calls (trace (generate_response (scripted_generator [Inr mixed_response]) ''q'' None None None))) = 1
   \<and> result (generate_response (scripted_generator [Inr mixed_response]) ''q'' None None None)
       = Inr ''Let me look that up.''"
  using no_tool_manager_no_tool_execution [of "scripted_generator [Inr mixed_response]" "''q''" None None]
  by (simp add: scripted_generator_def scripted_client_def mixed_response_def)

section \<open>The round limit\<close>

text \<open>
  Claim C1 as stated (at most two LM calls when every response asks for tools) fails: the
  first request is sent before the loop, and each of the two passes through the loop
  sends another one. The test \<^verbatim>\<open>test_sequential_two_round_tool_calling\<close> expects the
  three calls.
\<close>

theorem all_tool_use_third_lm_call:
  "length (lm_calls (trace (generate_response (constant_generator tool_use_response)
       ''Complex query that would need many searches'' None (Some [search_schema])
       (Some working_tools)))) = 3"
  by (simp add: run_defs)

text \<open>
  Claim C1, amended. If every LM response has \<^verbatim>\<open>stop_reason == "tool_use"\<close>, a tool
  manager is passed and every tool call returns, then \<^verbatim>\<open>generate_response\<close> runs exactly
  \<^verbatim>\<open>MAX_TOOL_ROUNDS\<close> (2) tool-execution rounds and issues exactly 3 LM calls: the first
  request and one after each round. A fourth call is never issued; the run ends at the
  return after the loop with the text extracted from the third response.
\<close>

theorem all_tool_use_three_lm_calls:
  assumes "\<forall>tr req. \<exists>r. client self tr req = Inr r \<and> stop_reason r = ''tool_use''"
    and "\<forall>tr n a. \<exists>s. tm tr n a = Inr s"
  shows "rounds (generate_response self query h ts (Some tm)) = 2
     \<and> length (lm_calls (trace (generate_response self query h ts (Some tm)))) = 3
     \<and> exit_site (generate_response self query h ts (Some tm)) = MaxRoundsReturn
     \<and> result (generate_response self query h ts (Some tm))
         = extract_text_content (last_response None (trace (generate_response self query h ts (Some tm))))"
  using generate_response_all_tool_use [OF assms, of query h ts]
  by (simp add: MAX_TOOL_ROUNDS_def)

theorem all_tool_use_three_lm_calls_witness:
  "rounds (generate_response (constant_generator tool_use_response) ''q'' None (Some [search_schema])
      (Some working_tools)) = 2
   \<and> length (lm_calls (trace (generate_response (constant_generator tool_use_response) ''q'' None
      (Some [search_schema]) (Some working_tools)))) = 3
   \<and> length (tool_calls (trace (generate_response (constant_generator tool_use_response) ''q'' None
      (Some [search_schema]) (Some working_tools)))) = 2"
proof -
  have lm: "\<forall>tr req. \<exists>r. client (constant_generator tool_use_response) tr req = Inr r
      \<and> stop_reason r = ''tool_use''"
    by (simp add: constant_generator_def constant_client_def tool_use_response_def)
  have tools: "\<forall>tr n a. \<exists>s. working_tools tr n a = Inr s"
    by (simp add: working_tools_def)
  have "length (tool_calls (trace (generate_response (constant_generator tool_use_response) ''q'' None
      (Some [search_schema]) (Some working_tools)))) = 2"
    by (simp add: run_defs)
  with all_tool_use_three_lm_calls [OF lm tools, of "''q''" None "Some [search_schema]"]
  show ?thesis by simp
qed

section \<open>Tool failure\<close>

text \<open>
  Claim C5. If a tool invocation raises inside \<^verbatim>\<open>_execute_all_tools\<close>, the executor makes
  no further call of that batch (the raising call is the last event it adds) and reports
  failure by returning \<^verbatim>\<open>([], False)\<close>. In a run of \<^verbatim>\<open>generate_response\<close> the raising
  invocation is then the last event altogether, so no further LM request is sent; the run
  ends at the return for a failed batch and returns the fixed apology string instead of
  raising.
\<close>

theorem tool_exception_ends_run:
  "(ToolCall n a (Inl e) \<in> set (drop (length tr) (snd (execute_all_tools resp tm rc tr))) \<longrightarrow>
      fst (execute_all_tools resp tm rc tr) = ([], False)
      \<and> last (snd (execute_all_tools resp tm rc tr)) = ToolCall n a (Inl e))
   \<and> (ToolCall n a (Inl e) \<in> set (trace (generate_response self query h ts tmo)) \<longrightarrow>
      (\<exists>before. trace (generate_response self query h ts tmo) = before @ [ToolCall n a (Inl e)]
            \<and> (\<forall>ev \<in> set before. \<not> tool_failed ev))
      \<and> result (generate_response self query h ts tmo) = Inr TOOL_FAILURE_TEXT
      \<and> exit_site (generate_response self query h ts tmo) = ToolFailureReturn)"
  using execute_all_tools_exception [of n a e tr resp tm rc]
    generate_response_tool_exception [of n a e self query h ts tmo]
  by blast

theorem tool_exception_ends_run_witness:
  "execute_all_tools mixed_response broken_tools 1 []
     = (([], False), [ToolCall ''search_course_content'' [(''query'', ''X'')] (Inl (Exception ''boom''))])
   \<and> trace (generate_response (scripted_generator [Inr mixed_response, Inr text_response])
       ''What is covered in lesson 1?'' None (Some [search_schema]) (Some broken_tools))
     = [LMCall (api_params (scripted_generator [Inr mixed_response, Inr text_response])
          ''What is covered in lesson 1?'' None (Some [search_schema])) (Inr mixed_response),
        ToolCall ''search_course_content'' [(''query'', ''X'')] (Inl (Exception ''boom''))]
   \<and> result (generate_response (scripted_generator [Inr mixed_response, Inr text_response])
       ''What is covered in lesson 1?'' None (Some [search_schema]) (Some broken_tools))
     = Inr TOOL_FAILURE_TEXT"
proof -
  let ?ev = "ToolCall ''search_course_content'' [(''query'', ''X'')] (Inl (Exception ''boom''))"
  let ?run = "generate_response (scripted_generator [Inr mixed_response, Inr text_response])
       ''What is covered in lesson 1?'' None (Some [search_schema]) (Some broken_tools)"
  have batch: "snd (execute_all_tools mixed_response broken_tools 1 []) = [?ev]"
    by (simp add: run_defs)
  then have in_batch: "?ev \<in> set (drop (length [])
      (snd (execute_all_tools mixed_response broken_tools 1 [])))"
    by simp
  have tr: "trace ?run
     = [LMCall (api_params (scripted_generator [Inr mixed_response, Inr text_response])
          ''What is covered in lesson 1?'' None (Some [search_schema])) (Inr mixed_response), ?ev]"
    by (simp add: run_defs)
  then have in_run: "?ev \<in> set (trace ?run)" by simp
  from tool_exception_ends_run [of "''search_course_content''" "[(''query'', ''X'')]"
      "Exception ''boom''" "[]" mixed_response broken_tools 1
      "scripted_generator [Inr mixed_response, Inr text_response]"
      "''What is covered in lesson 1?''" None "Some [search_schema]" "Some broken_tools"]
    in_batch in_run
  have "fst (execute_all_tools mixed_response broken_tools 1 []) = ([], False)"
    "result ?run = Inr TOOL_FAILURE_TEXT"
    by blast+
  with batch tr show ?thesis by (simp add: prod_eq_iff)
qed

section \<open>What the later requests carry\<close>

text \<open>
  Claim C7 as stated (every later request has \<^verbatim>\<open>tool_choice\<close> set to auto) fails when
  \<^verbatim>\<open>tools\<close> is omitted and a tool manager is passed: the later request then carries an
  empty tools list and \<^verbatim>\<open>tool_choice\<close> \<^verbatim>\<open>None\<close>, as the guard
  \<^verbatim>\<open>if base_params.get("tools") else None\<close> says.
\<close>

theorem tools_omitted_tool_choice_none:
  "map (tool_choice \<circ> fst)
     (lm_calls (trace (generate_response (scripted_generator [Inr tool_use_response, Inr text_response])
        ''What is covered in lesson 1?'' None None (Some working_tools))))
   = [None, Some ChoiceNone]"
  by (simp add: run_defs)

text \<open>
  Claim C7, amended. The first request is \<open>api_params\<close>. Every request after the first
  reuses exactly its system content, which contains the history text verbatim when a
  non-empty history was passed; and when a non-empty tools list was passed, every request
  after the first includes that same list with \<^verbatim>\<open>tool_choice\<close> set to auto.
\<close>

theorem later_requests_keep_system_and_tools:
  assumes "(req, res) \<in> set (tl (lm_calls (trace (generate_response self query h ts tmo))))"
  shows "fst (hd (lm_calls (trace (generate_response self query h ts tmo)))) = api_params self query h ts
     \<and> system req = system (api_params self query h ts)
     \<and> (\<forall>hist. h = Some hist \<and> hist \<noteq> [] \<longrightarrow> system req = SYSTEM_PROMPT @ PREVIOUS_CONVERSATION @ hist)
     \<and> (truthy ts \<longrightarrow> tools (api_params self query h ts) = ts \<and> tools req = ts
           \<and> tool_choice (api_params self query h ts) = Some ChoiceAuto
           \<and> tool_choice req = Some ChoiceAuto)"
proof -
  from generate_response_requests [of self query h ts tmo] obtain res0 later where
    calls: "lm_calls (trace (generate_response self query h ts tmo)) = (api_params self query h ts, res0) # later"
    and later: "\<forall>c \<in> set later. \<exists>msgs. fst c = next_params self (api_params self query h ts) msgs"
    by blast
  from assms calls have "(req, res) \<in> set later" by simp
  with later obtain msgs where req: "req = next_params self (api_params self query h ts) msgs"
    by fastforce
  have sys: "system req = system (api_params self query h ts)"
    by (simp add: req next_params_def)
  have hist: "\<forall>hist. h = Some hist \<and> hist \<noteq> [] \<longrightarrow> system req = SYSTEM_PROMPT @ PREVIOUS_CONVERSATION @ hist"
    by (simp add: sys api_params_fields system_content_def)
  have tls: "truthy ts \<longrightarrow> tools (api_params self query h ts) = ts \<and> tools req = ts
           \<and> tool_choice (api_params self query h ts) = Some ChoiceAuto
           \<and> tool_choice req = Some ChoiceAuto"
    by (cases ts) (auto simp add: req next_params_def api_params_fields)
  from calls sys hist tls show ?thesis by simp
qed

theorem later_requests_keep_system_and_tools_witness:
  "map (system \<circ> fst)
     (lm_calls (trace (generate_response (scripted_generator [Inr tool_use_response, Inr text_response])
        ''And lesson 2?'' (Some ''User: What is in lesson 1?'') (Some [search_schema])
        (Some working_tools))))
     = [SYSTEM_PROMPT @ PREVIOUS_CONVERSATION @ ''User: What is in lesson 1?'',
        SYSTEM_PROMPT @ PREVIOUS_CONVERSATION @ ''User: What is in lesson 1?'']
   \<and> map (tools \<circ> fst)
     (lm_calls (trace (generate_response (scripted_generator [Inr tool_use_response, Inr text_response])
        ''And lesson 2?'' (Some ''User: What is in lesson 1?'') (Some [search_schema])
        (Some working_tools))))
     = [Some [search_schema], Some [search_schema]]
   \<and> map (tool_choice \<circ> fst)
     (lm_calls (trace (generate_response (scripted_generator [Inr tool_use_response, Inr text_response])
        ''And lesson 2?'' (Some ''User: What is in lesson 1?'') (Some [search_schema])
        (Some working_tools))))
     = [Some ChoiceAuto, Some ChoiceAuto]"
proof -
  let ?run = "generate_response (scripted_generator [Inr tool_use_response, Inr text_response])
        ''And lesson 2?'' (Some ''User: What is in lesson 1?'') (Some [search_schema]) (Some working_tools)"
  let ?p = "api_params (scripted_generator [Inr tool_use_response, Inr text_response])
        ''And lesson 2?'' (Some ''User: What is in lesson 1?'') (Some [search_schema])"
  have "\<exists>req. lm_calls (trace ?run) = [(?p, Inr tool_use_response), (req, Inr text_response)]"
    by (simp add: run_defs)
  then obtain req where
    calls: "lm_calls (trace ?run) = [(?p, Inr tool_use_response), (req, Inr text_response)]"
    by blast
  then have "(req, Inr text_response) \<in> set (tl (lm_calls (trace ?run)))" by simp
  from later_requests_keep_system_and_tools [OF this] calls show ?thesis
    by (simp add: api_params_fields system_content_def)
qed

section \<open>A failing LM call after the first\<close>

text \<open>
  Claim C4 as stated (the result is the last successfully extracted text, else a
  formatted error string) fails. When the first response asks for a tool and carries no
  text, and the second LM call raises, no text has been extracted from any response and
  the result is still not the error message of round 1: it is the fallback string of
  \<^verbatim>\<open>_extract_text_content\<close>, applied to the first response.
\<close>

theorem later_lm_failure_fallback_string:
  "result (generate_response (scripted_generator [Inr tool_use_response, Inl (Exception ''API Error'')])
      ''What is covered in lesson 1?'' None (Some [search_schema]) (Some working_tools))
     = Inr NO_TEXT_BLOCK_TEXT
   \<and> rounds (generate_response (scripted_generator [Inr tool_use_response, Inl (Exception ''API Error'')])
      ''What is covered in lesson 1?'' None (Some [search_schema]) (Some working_tools)) = 1
   \<and> NO_TEXT_BLOCK_TEXT \<noteq> error_msg 1 (Exception ''API Error'')
   \<and> List.find hasattr_text (content tool_use_response) = None"
  by (simp add: run_defs NO_TEXT_BLOCK_TEXT_def error_msg_def)

text \<open>
  Claim C4, amended. When an LM call after the first one raises, the failure is not
  raised to the caller and nothing is called after it: \<^verbatim>\<open>generate_response\<close> returns the
  string that \<^verbatim>\<open>_extract_text_content\<close> gives for the last response obtained from the LM.
  That is the text of the response's first text-bearing block when it has one, else one
  of the extractor's two fixed fallback strings.
\<close>

theorem later_lm_failure_returns_last_text:
  assumes "LMCall req (Inl e) \<in> set (tl (trace (generate_response self query h ts tmo)))"
  shows "\<exists>r s. last_response None (trace (generate_response self query h ts tmo)) = Some r
     \<and> extract_text_content (Some r) = Inr s
     \<and> result (generate_response self query h ts tmo) = Inr s
     \<and> (\<forall>b. List.find hasattr_text (content r) = Some b \<longrightarrow> s = block_text b)
     \<and> (List.find hasattr_text (content r) = None \<longrightarrow>
           s = NO_RESPONSE_TEXT \<or> s = NO_TEXT_BLOCK_TEXT)
     \<and> last (trace (generate_response self query h ts tmo)) = LMCall req (Inl e)"
proof (cases rule: generate_response_cases [of self query h ts tmo])
  case (first_call_raised e')
  with assms show ?thesis by simp
next
  case (direct r)
  with assms show ?thesis by simp
next
  case (tool_rounds r tm)
  let ?p = "api_params self query h ts"
  let ?out = "tool_loop self ?p tm 0 (messages ?p) (Some r) [LMCall ?p (Inr r)]"
  from tool_loop_lm_failure [of self ?p tm 0 "messages ?p" "Some r" "[LMCall ?p (Inr r)]"]
  obtain new where new: "trace ?out = [LMCall ?p (Inr r)] @ new"
    and fail: "(\<exists>ev \<in> set new. lm_failed ev) \<longrightarrow>
           lm_failed (last new)
         \<and> (\<forall>ev \<in> set (butlast new). \<not> lm_failed ev)
         \<and> exit_site ?out = LMFailureTextReturn
         \<and> (\<exists>r'. last_response (Some r) new = Some r' \<and> stop_reason r' = ''tool_use''
               \<and> result ?out = extract_text_content (Some r'))"
    by blast
  from assms new have mem: "LMCall req (Inl e) \<in> set new" by (simp add: tool_rounds(4))
  moreover have failed: "lm_failed (LMCall req (Inl e))" by simp
  ultimately have ex: "\<exists>ev \<in> set new. lm_failed ev" by blast
  with fail obtain r' where r': "last_response (Some r) new = Some r'"
    "result ?out = extract_text_content (Some r')"
    and last: "lm_failed (last new)" and before: "\<forall>ev \<in> set (butlast new). \<not> lm_failed ev"
    by blast
  from mem have ne: "new \<noteq> []" by auto
  then have "new = butlast new @ [last new]" by simp
  with mem have "LMCall req (Inl e) \<in> set (butlast new) \<or> LMCall req (Inl e) = last new"
    by (metis Un_iff empty_iff empty_set set_ConsD set_append)
  with before failed have "last new = LMCall req (Inl e)" by auto
  with ne new have l: "last (trace ?out) = LMCall req (Inl e)" by simp
  obtain s where s: "extract_text_content (Some r') = Inr s"
    using extract_text_content_returns by blast
  have found: "\<forall>b. List.find hasattr_text (content r') = Some b \<longrightarrow> s = block_text b"
    using extract_text_content_find [of r'] s by auto
  have none: "List.find hasattr_text (content r') = None \<longrightarrow>
      s = NO_RESPONSE_TEXT \<or> s = NO_TEXT_BLOCK_TEXT"
    using extract_text_content_no_text [of r'] s by auto
  have "last_response None (trace ?out) = Some r'" using new r'(1) by simp
  with s r'(2) l found none show ?thesis unfolding tool_rounds(4) by auto
qed


theorem later_lm_failure_returns_last_text_witness:
  "result (generate_response (scripted_generator [Inr mixed_response, Inl (Exception ''API Error'')])
      ''What is covered in lesson 1?'' None (Some [search_schema]) (Some working_tools))
   = Inr ''Let me look that up.''"
proof -
  let ?g = "scripted_generator [Inr mixed_response, Inl (Exception ''API Error'')]"
  let ?run = "generate_response ?g ''What is covered in lesson 1?'' None (Some [search_schema])
      (Some working_tools)"
  let ?p = "api_params ?g ''What is covered in lesson 1?'' None (Some [search_schema])"
  have "\<exists>req. trace ?run =
      [LMCall ?p (Inr mixed_response),
       ToolCall ''search_course_content'' [(''query'', ''X'')] (Inr ''result of search_course_content''),
       ToolCall ''get_course_outline'' [(''course_name'', ''MCP'')] (Inr ''result of get_course_outline''),
       LMCall req (Inl (Exception ''API Error''))]"
    by (simp add: run_defs)
  then obtain req where tr: "trace ?run =
      [LMCall ?p (Inr mixed_response),
       ToolCall ''search_course_content'' [(''query'', ''X'')] (Inr ''result of search_course_content''),
       ToolCall ''get_course_outline'' [(''course_name'', ''MCP'')] (Inr ''result of get_course_outline''),
       LMCall req (Inl (Exception ''API Error''))]"
    by blast
  then have "LMCall req (Inl (Exception ''API Error'')) \<in> set (tl (trace ?run))" by simp
  from later_lm_failure_returns_last_text [OF this] obtain r s where
    r: "last_response None (trace ?run) = Some r"
    and res: "result ?run = Inr s"
    and found: "\<forall>b. List.find hasattr_text (content r) = Some b \<longrightarrow> s = block_text b"
    by blast
  from r tr have "r = mixed_response" by simp
  moreover have "List.find hasattr_text (content mixed_response) = Some (Text ''Let me look that up.'')"
    by (simp add: mixed_response_def)
  ultimately have "s = ''Let me look that up.''" using found by simp
  with res show ?thesis by simp
qed

text \<open>
  Claim C10. In \<^verbatim>\<open>_handle_tool_execution\<close>, whatever the initial response (also
  \<^verbatim>\<open>None\<close>) and the trace so far, the run never ends at the branch that returns
  \<^verbatim>\<open>error_msg\<close>. When an LM call of the loop raises, the run ends at the branch that
  returns \<^verbatim>\<open>_extract_text_content(current_response)\<close>, where \<^verbatim>\<open>current_response\<close> is the
  previous response, whose stop reason asks for tools.
\<close>

theorem error_message_branch_unreachable:
  "\<exists>new. trace (handle_tool_execution self initial_response base_params tm tr) = tr @ new
     \<and> exit_site (handle_tool_execution self initial_response base_params tm tr) \<noteq> LMFailureMessageReturn
     \<and> ((\<exists>ev \<in> set new. lm_failed ev) \<longrightarrow>
           exit_site (handle_tool_execution self initial_response base_params tm tr) = LMFailureTextReturn
         \<and> (\<exists>r. last_response initial_response new = Some r \<and> stop_reason r = ''tool_use''
               \<and> result (handle_tool_execution self initial_response base_params tm tr)
                   = extract_text_content (Some r)))"
  using tool_loop_lm_failure [of self base_params tm 0 "messages base_params" initial_response tr]
  unfolding handle_tool_execution_def by blast

theorem error_message_branch_unreachable_witness:
  "exit_site (handle_tool_execution
      (scripted_generator [Inr mixed_response, Inl (Exception ''API Error'')])
      (Some mixed_response)
      (api_params (scripted_generator [Inr mixed_response, Inl (Exception ''API Error'')])
         ''What is covered in lesson 1?'' None (Some [search_schema]))
      working_tools
      [LMCall (api_params (scripted_generator [Inr mixed_response, Inl (Exception ''API Error'')])
         ''What is covered in lesson 1?'' None (Some [search_schema])) (Inr mixed_response)])
     = LMFailureTextReturn
   \<and> result (handle_tool_execution
      (scripted_generator [Inr mixed_response, Inl (Exception ''API Error'')])
      (Some mixed_response)
      (api_params (scripted_generator [Inr mixed_response, Inl (Exception ''API Error'')])
         ''What is covered in lesson 1?'' None (Some [search_schema]))
      working_tools
      [LMCall (api_params (scripted_generator [Inr mixed_response, Inl (Exception ''API Error'')])
         ''What is covered in lesson 1?'' None (Some [search_schema])) (Inr mixed_response)])
     = Inr ''Let me look that up.''"
proof -
  let ?g = "scripted_generator [Inr mixed_response, Inl (Exception ''API Error'')]"
  let ?p = "api_params ?g ''What is covered in lesson 1?'' None (Some [search_schema])"
  let ?tr = "[LMCall ?p (Inr mixed_response)]"
  let ?out = "handle_tool_execution ?g (Some mixed_response) ?p working_tools ?tr"
  have "\<exists>req. trace ?out = ?tr @
      [ToolCall ''search_course_content'' [(''query'', ''X'')] (Inr ''result of search_course_content''),
       ToolCall ''get_course_outline'' [(''course_name'', ''MCP'')] (Inr ''result of get_course_outline''),
       LMCall req (Inl (Exception ''API Error''))]"
    by (simp add: run_defs)
  then obtain req where tr: "trace ?out = ?tr @
      [ToolCall ''search_course_content'' [(''query'', ''X'')] (Inr ''result of search_course_content''),
       ToolCall ''get_course_outline'' [(''course_name'', ''MCP'')] (Inr ''result of get_course_outline''),
       LMCall req (Inl (Exception ''API Error''))]"
    by blast
  from error_message_branch_unreachable [of ?g "Some mixed_response" ?p working_tools ?tr]
  obtain new where new: "trace ?out = ?tr @ new"
    and fail: "(\<exists>ev \<in> set new. lm_failed ev) \<longrightarrow>
        exit_site ?out = LMFailureTextReturn
      \<and> (\<exists>r. last_response (Some mixed_response) new = Some r \<and> stop_reason r = ''tool_use''
            \<and> result ?out = extract_text_content (Some r))"
    by blast
  from tr new have new_eq: "new =
      [ToolCall ''search_course_content'' [(''query'', ''X'')] (Inr ''result of search_course_content''),
       ToolCall ''get_course_outline'' [(''course_name'', ''MCP'')] (Inr ''result of get_course_outline''),
       LMCall req (Inl (Exception ''API Error''))]"
    by simp
  then have "\<exists>ev \<in> set new. lm_failed ev" by simp
  with fail obtain r where site: "exit_site ?out = LMFailureTextReturn"
    and r: "last_response (Some mixed_response) new = Some r"
    and res: "result ?out = extract_text_content (Some r)"
    by blast
  from r new_eq have "r = mixed_response" by simp
  moreover have "extract_text_content (Some mixed_response) = Inr ''Let me look that up.''"
    by (simp add: extract_text_content_def mixed_response_def)
  ultimately show ?thesis using site res by simp
qed

section \<open>Tool results and the next request\<close>

text \<open>
  Claim C6. Take two consecutive LM calls of a run. The first returned a response, and
  the second request was sent with the messages of the first followed by the assistant
  message with that response's content and, when the response has a tool-use block, one
  user message: that message is the last of the request, and for every tool-use block of
  the response it contains a tool result whose \<^verbatim>\<open>tool_use_id\<close> is the block's id (the ids
  of the results are those of the tool-use blocks, in order). A batch in which a tool
  raises is followed by no request.
\<close>

theorem tool_results_precede_next_request:
  assumes "lm_calls (trace (generate_response self query h ts tmo))
             = earlier @ (req, res) # (req', res') # later"
  shows "\<exists>r trs. res = Inr r
     \<and> map tool_use_id trs = map block_id (filter is_tool_use (content r))
     \<and> messages req' = messages req @ round_messages r trs
     \<and> (\<forall>b \<in> set (content r). is_tool_use b \<longrightarrow>
          last (messages req') = \<lparr>role = User, body = ToolResults trs\<rparr>
          \<and> (\<exists>tres \<in> set trs. tool_use_id tres = block_id b))"
proof -
  from generate_response_handover [of self query h ts tmo] assms
  have "successively results_handed_over (earlier @ (req, res) # (req', res') # later)"
    by simp
  then have "results_handed_over (req, res) (req', res')"
    by (rule successively_middle)
  then obtain r trs where r: "res = Inr r"
    and ids: "map tool_use_id trs = map block_id (filter is_tool_use (content r))"
    and msgs: "messages req' = messages req @ round_messages r trs"
    by (auto simp add: results_handed_over_def)
  have "last (messages req') = \<lparr>role = User, body = ToolResults trs\<rparr>
      \<and> (\<exists>tres \<in> set trs. tool_use_id tres = block_id b)"
    if b: "b \<in> set (content r)" "is_tool_use b" for b
  proof -
    from b have "block_id b \<in> set (map block_id (filter is_tool_use (content r)))" by simp
    with ids have mem: "block_id b \<in> set (map tool_use_id trs)" by simp
    then have "trs \<noteq> []" by auto
    with msgs have "last (messages req') = \<lparr>role = User, body = ToolResults trs\<rparr>"
      by (simp add: round_messages_def)
    with mem show ?thesis by auto
  qed
  with r ids msgs show ?thesis by blast
qed

theorem tool_results_precede_next_request_witness:
  "\<exists>trs. last (messages (fst (last (lm_calls (trace
        (generate_response (scripted_generator [Inr mixed_response, Inr text_response])
           ''What is covered in lesson 1?'' None (Some [search_schema]) (Some working_tools))))))) =
        \<lparr>role = User, body = ToolResults trs\<rparr>
      \<and> map tool_use_id trs = [''tool-1'', ''tool-2'']"
proof -
  let ?g = "scripted_generator [Inr mixed_response, Inr text_response]"
  let ?run = "generate_response ?g ''What is covered in lesson 1?'' None (Some [search_schema])
      (Some working_tools)"
  let ?p = "api_params ?g ''What is covered in lesson 1?'' None (Some [search_schema])"
  have "\<exists>req. lm_calls (trace ?run) = [(?p, Inr mixed_response), (req, Inr text_response)]"
    by (simp add: run_defs)
  then obtain req where
    calls: "lm_calls (trace ?run) = [(?p, Inr mixed_response), (req, Inr text_response)]"
    by blast
  then have "lm_calls (trace ?run) = [] @ (?p, Inr mixed_response) # (req, Inr text_response) # []"
    by simp
  from tool_results_precede_next_request [OF this] obtain r trs where
    r: "Inr mixed_response = (Inr r :: exn + response)"
    and ids: "map tool_use_id trs = map block_id (filter is_tool_use (content r))"
    and blocks: "\<forall>b \<in> set (content r). is_tool_use b \<longrightarrow>
          last (messages req) = \<lparr>role = User, body = ToolResults trs\<rparr>
          \<and> (\<exists>tres \<in> set trs. tool_use_id tres = block_id b)"
    by blast
  from r have r_eq: "r = mixed_response" by simp
  have "search_block \<in> set (content mixed_response)" "is_tool_use search_block"
    by (simp_all add: mixed_response_def search_block_def)
  with blocks r_eq have "last (messages req) = \<lparr>role = User, body = ToolResults trs\<rparr>"
    by blast
  moreover from ids r_eq have "map tool_use_id trs = [''tool-1'', ''tool-2'']"
    by (simp add: mixed_response_def search_block_def outline_block_def)
  ultimately show ?thesis using calls by auto
qed

end
